theory Spec2Isabelle
  imports Main "HOL-Library.Word" "HOL-Library.AList"
begin

unbundle bit_operations_syntax

section \<open>Shared vocabulary\<close>

text \<open>
  Go strings are byte sequences and \<^verbatim>\<open>len\<close> counts bytes, so a Go string is a
  \<^typ>\<open>string\<close> (a list of 8-bit characters). Go's \<^verbatim>\<open>int\<close> is taken at its 64-bit
  width (amd64, arm64): a \<^typ>\<open>64 word\<close> read as two's complement, where \<^verbatim>\<open>>>\<close> is the
  arithmetic shift and \<^verbatim>\<open>+\<close>, \<^verbatim>\<open>-\<close> wrap around.
\<close>

type_synonym go_int = "64 word"
type_synonym byte = "8 word"

text \<open>
  A Go \<^verbatim>\<open>error\<close>: a message, or an error wrapped with context by
  \<^verbatim>\<open>fmt.Errorf("...: %w", err)\<close>.
\<close>

datatype error = Error string | Wrap string error

definition digit_char :: "nat \<Rightarrow> char" where
  "digit_char d = ''0123456789abcdef'' ! d"

text \<open>The decimal rendering that \<^verbatim>\<open>fmt.Sprintf("%d", i)\<close> produces.\<close>

fun fmt_nat :: "nat \<Rightarrow> string" where
  "fmt_nat n = (if n < 10 then [digit_char n] else fmt_nat (n div 10) @ [digit_char (n mod 10)])"

definition fmt_d :: "go_int \<Rightarrow> string" where
  "fmt_d i = (if i <s 0 then CHR ''-'' # fmt_nat (nat (- sint i)) else fmt_nat (nat (sint i)))"

text \<open>\<^verbatim>\<open>hex.EncodeToString\<close>: two lower-case hexadecimal digits per byte, high nibble first.\<close>

definition hex_EncodeToString :: "byte list \<Rightarrow> string" where
  "hex_EncodeToString bs =
     concat (map (\<lambda>b. [digit_char (unat (drop_bit 4 b)), digit_char (unat (b AND 15))]) bs)"

section \<open>Durable persister: shard routing (postgres client)\<close>

definition DefaultShardCount :: go_int where
  "DefaultShardCount = 8"

definition isPowerOfTwo :: "go_int \<Rightarrow> bool" where
  "isPowerOfTwo n \<longleftrightarrow> 0 <s n \<and> n AND (n - 1) = 0"

definition nextPowerOfTwo :: "go_int \<Rightarrow> go_int" where
  "nextPowerOfTwo n =
     (if n \<le>s 1 then 1
      else let n1 = n - 1;
               n2 = n1 OR signed_drop_bit 1 n1;
               n3 = n2 OR signed_drop_bit 2 n2;
               n4 = n3 OR signed_drop_bit 4 n3;
               n5 = n4 OR signed_drop_bit 8 n4;
               n6 = n5 OR signed_drop_bit 16 n5
           in n6 + 1)"

text \<open>
  The five shift-and-or steps of \<^verbatim>\<open>nextPowerOfTwo\<close> on their own, applied to
  \<open>n - 1\<close>; used to state what the steps do to the bits.
\<close>

definition smear :: "go_int \<Rightarrow> go_int" where
  "smear m = (let n2 = m OR signed_drop_bit 1 m;
                  n3 = n2 OR signed_drop_bit 2 n2;
                  n4 = n3 OR signed_drop_bit 4 n3;
                  n5 = n4 OR signed_drop_bit 8 n4;
                  n6 = n5 OR signed_drop_bit 16 n5
              in n6)"

text \<open>
  The part of \<^verbatim>\<open>NewClient\<close> that fixes the client's \<^verbatim>\<open>shardCount\<close> from
  \<^verbatim>\<open>cfg.ShardCount\<close>: non-positive values take the default, then a value that is
  not a power of two goes through \<^verbatim>\<open>nextPowerOfTwo\<close>.
\<close>

definition client_shardCount :: "go_int \<Rightarrow> go_int" where
  "client_shardCount cfg_ShardCount =
     (let shardCount = (if cfg_ShardCount \<le>s 0 then DefaultShardCount else cfg_ShardCount)
      in if \<not> isPowerOfTwo shardCount then nextPowerOfTwo shardCount else shardCount)"

text \<open>\<^verbatim>\<open>hash/fnv\<close>'s \<^verbatim>\<open>New32a\<close>, \<^verbatim>\<open>Write\<close>, \<^verbatim>\<open>Sum32\<close>: 32-bit FNV-1a over the bytes.\<close>

definition fnv1a32 :: "string \<Rightarrow> 32 word" where
  "fnv1a32 s = foldl (\<lambda>h c. (h XOR of_char c) * 16777619) 2166136261 s"

text \<open>\<^verbatim>\<open>int(h.Sum32()) & (c.shardCount - 1)\<close>; the conversion zero-extends.\<close>

definition GetShardIndex :: "go_int \<Rightarrow> string \<Rightarrow> go_int" where
  "GetShardIndex shardCount userID = ucast (fnv1a32 userID) AND (shardCount - 1)"

definition GetEventsTableName :: "go_int \<Rightarrow> string \<Rightarrow> string" where
  "GetEventsTableName shardCount userID = ''session_events_'' @ fmt_d (GetShardIndex shardCount userID)"

section \<open>Protocol-A adapter: tool-call identifiers\<close>

definition maxToolCallIDLength :: nat where
  "maxToolCallIDLength = 40"

text \<open>
  The adapter's \<^verbatim>\<open>toolCall\<close> field, a \<^verbatim>\<open>map[string]string\<close> from short to original
  identifier. \<^verbatim>\<open>crypto/sha256\<close> belongs to the standard library; \<^verbatim>\<open>sha256.Sum256\<close>
  is a parameter \<open>sha256_sum\<close> returning the digest bytes (a \<^verbatim>\<open>[32]byte\<close> in Go).
\<close>

record Model =
  toolCall :: "string \<rightharpoonup> string"

definition normalizeToolCallID ::
  "(string \<Rightarrow> byte list) \<Rightarrow> Model \<Rightarrow> string \<Rightarrow> string \<times> Model" where
  "normalizeToolCallID sha256_sum m ident =
     (if length ident \<le> maxToolCallIDLength then (ident, m)
      else let hash = sha256_sum ident;
               shortID = ''tc_'' @ take (maxToolCallIDLength - 3) (hex_EncodeToString hash)
           in (shortID, m\<lparr>toolCall := (toolCall m)(shortID \<mapsto> ident)\<rparr>))"

definition denormalizeToolCallID :: "Model \<Rightarrow> string \<Rightarrow> string" where
  "denormalizeToolCallID m shortID =
     (case toolCall m shortID of Some original \<Rightarrow> original | None \<Rightarrow> shortID)"

section \<open>Protocol-A adapter: schema translation\<close>

text \<open>
  A Go value of type \<^verbatim>\<open>any\<close> of the shape JSON decoding produces, and a
  \<^verbatim>\<open>map[string]any\<close> as an association list read with \<^const>\<open>map_of\<close> and written with
  \<^const>\<open>AList.update\<close>. The adapter mutates the maps in place; the model returns the
  map as it stands after the call, nested maps included.
\<close>

datatype any =
    AnyNil
  | AnyBool bool
  | AnyNum int
  | AnyStr string
  | AnyStrSlice "string list"
  | AnySlice "any list"
  | AnyMap "(string \<times> any) list"

type_synonym json_map = "(string \<times> any) list"

text \<open>Facts about sizes for the termination proofs below.\<close>

lemma size_any_lookup [termination_simp]:
  "map_of m k = Some v \<Longrightarrow> size v < Suc (size_list (size_prod (\<lambda>_. 0) size) m)"
  by (induction m) (auto split: if_splits)

lemma size_any_member [termination_simp]:
  "(k, v) \<in> set m \<Longrightarrow> size v < Suc (size_list (size_prod (\<lambda>_. 0) size) m)"
  by (induction m) auto

text \<open>
  \<^verbatim>\<open>ensureObjectProperties\<close>. \<open>add_empty_properties\<close> is its first statement,
  \<open>store_processed\<close> puts a nested map back after the recursive call has changed it.
\<close>

definition add_empty_properties :: "json_map \<Rightarrow> json_map" where
  "add_empty_properties schema =
     (case map_of schema ''type'' of
        Some (AnyStr t) \<Rightarrow>
          if t = ''object'' \<and> map_of schema ''properties'' = None
          then AList.update ''properties'' (AnyMap []) schema
          else schema
      | _ \<Rightarrow> schema)"

definition store_processed :: "string \<Rightarrow> json_map option \<Rightarrow> json_map \<Rightarrow> json_map" where
  "store_processed key processed schema =
     (case processed of None \<Rightarrow> schema | Some m \<Rightarrow> AList.update key (AnyMap m) schema)"

function ensureObjectProperties :: "json_map \<Rightarrow> json_map" where
  "ensureObjectProperties schema =
     store_processed ''items''
       (case map_of schema ''items'' of
          Some (AnyMap items) \<Rightarrow> Some (ensureObjectProperties items)
        | _ \<Rightarrow> None)
       (store_processed ''properties''
          (case map_of (add_empty_properties schema) ''properties'' of
             Some (AnyMap props) \<Rightarrow>
               Some (map (\<lambda>(name, prop).
                       (name, case prop of AnyMap propMap \<Rightarrow> AnyMap (ensureObjectProperties propMap)
                              | _ \<Rightarrow> prop)) props)
           | _ \<Rightarrow> None)
          (add_empty_properties schema))"
  by pat_completeness auto
termination
  apply (relation "measure (size_list (size_prod (\<lambda>_. 0) size))")
    apply simp
   apply (auto simp: add_empty_properties_def update_conv' split: option.splits any.splits if_splits
      dest!: size_any_lookup size_any_member)
  done

function props_ok :: "json_map \<Rightarrow> bool" where
  "props_ok schema \<longleftrightarrow>
     (map_of schema ''type'' = Some (AnyStr ''object'') \<longrightarrow> map_of schema ''properties'' \<noteq> None)
     \<and> (case map_of schema ''properties'' of
          Some (AnyMap props) \<Rightarrow>
            list_all (\<lambda>(name, prop). case prop of AnyMap propMap \<Rightarrow> props_ok propMap | _ \<Rightarrow> True) props
        | _ \<Rightarrow> True)
     \<and> (case map_of schema ''items'' of
          Some (AnyMap items) \<Rightarrow> props_ok items
        | _ \<Rightarrow> True)"
  by pat_completeness auto
termination
  apply (relation "measure (size_list (size_prod (\<lambda>_. 0) size))")
    apply simp
   apply (auto dest!: size_any_lookup size_any_member)
  done

text \<open>
  The property the normalization is for, on every node reached through
  \<^verbatim>\<open>properties\<close> and \<^verbatim>\<open>items\<close>: a node of type \<^verbatim>\<open>"object"\<close> has a
  \<^verbatim>\<open>properties\<close> field.
\<close>

declare ensureObjectProperties.simps [simp del] props_ok.simps [simp del]

text \<open>
  \<^verbatim>\<open>convertToFunctionParams\<close>: the tool parameters are absent, a map used directly, or
  a value of another type sent through \<^verbatim>\<open>json.Marshal\<close> and \<^verbatim>\<open>json.Unmarshal\<close>; that
  round trip is the parameter \<open>via_json\<close>, \<open>None\<close> when either step fails or yields
  no map.
\<close>

datatype 'p tool_params = NoParams | DirectMap json_map | OtherParams 'p

definition convertToFunctionParams ::
  "('p \<Rightarrow> json_map option) \<Rightarrow> 'p tool_params \<Rightarrow> json_map option" where
  "convertToFunctionParams via_json params =
     (case params of
        NoParams \<Rightarrow> None
      | DirectMap dm \<Rightarrow> Some (ensureObjectProperties dm)
      | OtherParams p \<Rightarrow>
          (case via_json p of None \<Rightarrow> None | Some m \<Rightarrow> Some (ensureObjectProperties m)))"

text \<open>\<^verbatim>\<open>genai.Schema\<close> and \<^verbatim>\<open>convertSchema\<close>; a \<^verbatim>\<open>*genai.Schema\<close> may be nil.\<close>

datatype genai_Type =
    TypeUnspecified | TypeString | TypeNumber | TypeInteger | TypeBoolean | TypeArray
  | TypeObject | TypeNULL

datatype Schema =
  Schema (Type: genai_Type) (Description: string) (Required: "string list") (Enum: "string list")
    (Properties: "(string \<times> Schema option) list") (Items: "Schema option")

definition schemaTypeToString :: "genai_Type \<Rightarrow> string" where
  "schemaTypeToString t =
     (case t of
        TypeString \<Rightarrow> ''string''
      | TypeNumber \<Rightarrow> ''number''
      | TypeInteger \<Rightarrow> ''integer''
      | TypeBoolean \<Rightarrow> ''boolean''
      | TypeArray \<Rightarrow> ''array''
      | TypeObject \<Rightarrow> ''object''
      | _ \<Rightarrow> ''string'')"

text \<open>The assignments of \<^verbatim>\<open>type\<close>, \<^verbatim>\<open>description\<close>, \<^verbatim>\<open>required\<close> and \<^verbatim>\<open>enum\<close>.\<close>

definition scalar_fields :: "genai_Type \<Rightarrow> string \<Rightarrow> string list \<Rightarrow> string list \<Rightarrow> json_map" where
  "scalar_fields t d r e =
     (if t \<noteq> TypeUnspecified then [(''type'', AnyStr (schemaTypeToString t))] else [])
     @ (if d \<noteq> [] then [(''description'', AnyStr d)] else [])
     @ (if length r > 0 then [(''required'', AnyStrSlice r)] else [])
     @ (if length e > 0 then [(''enum'', AnyStrSlice e)] else [])"

fun convertSchema :: "Schema option \<Rightarrow> string + json_map"
  and convertProperties :: "(string \<times> Schema option) list \<Rightarrow> string + json_map" where
  "convertSchema None = Inr [(''type'', AnyStr ''object''), (''properties'', AnyMap [])]"
| "convertSchema (Some (Schema t d r e ps it)) =
     (case (if length ps > 0
            then (case convertProperties ps of
                    Inl err \<Rightarrow> Inl err
                  | Inr props \<Rightarrow> Inr (AList.update ''properties'' (AnyMap props) (scalar_fields t d r e)))
            else Inr (scalar_fields t d r e)) of
        Inl err \<Rightarrow> Inl err
      | Inr result \<Rightarrow>
          (case it of
             None \<Rightarrow> Inr result
           | Some i \<Rightarrow>
               (case convertSchema (Some i) of
                  Inl err \<Rightarrow> Inl err
                | Inr items \<Rightarrow> Inr (AList.update ''items'' (AnyMap items) result))))"
| "convertProperties [] = Inr []"
| "convertProperties ((name, propSchema) # rest) =
     (case convertSchema propSchema of
        Inl err \<Rightarrow> Inl err
      | Inr converted \<Rightarrow>
          (case convertProperties rest of
             Inl err \<Rightarrow> Inl err
           | Inr props \<Rightarrow> Inr (AList.update name (AnyMap converted) props)))"

text \<open>
  The structured-output branch of \<^verbatim>\<open>applyGenerationConfig\<close>: the JSON schema placed in
  the request's response format for \<^verbatim>\<open>cfg.ResponseSchema\<close>, if any.
\<close>

definition response_format_schema :: "Schema option \<Rightarrow> json_map option" where
  "response_format_schema cfg_ResponseSchema =
     (case cfg_ResponseSchema of
        None \<Rightarrow> None
      | Some s \<Rightarrow> (case convertSchema (Some s) of Inr schemaMap \<Rightarrow> Some schemaMap | Inl _ \<Rightarrow> None))"

section \<open>Protocol-B adapter: message history repair\<close>

text \<open>
  A content block is the SDK's union with one variant set; the variants the adapter
  builds are text, image, tool_use and tool_result, and every other variant of the SDK
  is \<open>OfOtherBlock\<close>. \<^verbatim>\<open>MessageParamRole\<close> is a string type with the constants
  \<^verbatim>\<open>"user"\<close> and \<^verbatim>\<open>"assistant"\<close>.
\<close>

datatype ContentBlockParamUnion =
    OfText string
  | OfImage string string
  | OfToolUse string string string
  | OfToolResult string string bool
  | OfOtherBlock string

record MessageParam =
  Role :: string
  Content :: "ContentBlockParamUnion list"

definition MessageParamRoleUser :: string where
  "MessageParamRoleUser = ''user''"

definition MessageParamRoleAssistant :: string where
  "MessageParamRoleAssistant = ''assistant''"

fun extractToolUseIDs_blocks :: "ContentBlockParamUnion list \<Rightarrow> string list" where
  "extractToolUseIDs_blocks [] = []"
| "extractToolUseIDs_blocks (OfToolUse i _ _ # bs) = i # extractToolUseIDs_blocks bs"
| "extractToolUseIDs_blocks (_ # bs) = extractToolUseIDs_blocks bs"

definition extractToolUseIDs :: "MessageParam \<Rightarrow> string list" where
  "extractToolUseIDs msg = extractToolUseIDs_blocks (Content msg)"

fun extractToolResultIDs_blocks :: "ContentBlockParamUnion list \<Rightarrow> string list" where
  "extractToolResultIDs_blocks [] = []"
| "extractToolResultIDs_blocks (OfToolResult i _ _ # bs) = i # extractToolResultIDs_blocks bs"
| "extractToolResultIDs_blocks (_ # bs) = extractToolResultIDs_blocks bs"

definition extractToolResultIDs :: "MessageParam \<Rightarrow> string list" where
  "extractToolResultIDs msg = extractToolResultIDs_blocks (Content msg)"

text \<open>
  \<^verbatim>\<open>allowedIDs != nil && allowedIDs[id]\<close>: \<open>allowedIDs\<close> is a \<^verbatim>\<open>map[string]bool\<close> or
  nil, and a missing key reads as false.
\<close>

definition allowed_id :: "(string \<rightharpoonup> bool) option \<Rightarrow> string \<Rightarrow> bool" where
  "allowed_id allowedIDs i =
     (case allowedIDs of None \<Rightarrow> False
      | Some allowed \<Rightarrow> (case allowed i of Some v \<Rightarrow> v | None \<Rightarrow> False))"

fun filterToolUse_blocks ::
  "ContentBlockParamUnion list \<Rightarrow> (string \<rightharpoonup> bool) option \<Rightarrow> ContentBlockParamUnion list" where
  "filterToolUse_blocks [] allowedIDs = []"
| "filterToolUse_blocks (OfToolUse i n inp # bs) allowedIDs =
     (if allowed_id allowedIDs i
      then OfToolUse i n inp # filterToolUse_blocks bs allowedIDs
      else filterToolUse_blocks bs allowedIDs)"
| "filterToolUse_blocks (b # bs) allowedIDs = b # filterToolUse_blocks bs allowedIDs"

definition filterToolUse :: "MessageParam \<Rightarrow> (string \<rightharpoonup> bool) option \<Rightarrow> MessageParam" where
  "filterToolUse msg allowedIDs =
     \<lparr>Role = Role msg, Content = filterToolUse_blocks (Content msg) allowedIDs\<rparr>"

definition hasContent :: "MessageParam \<Rightarrow> bool" where
  "hasContent msg \<longleftrightarrow> length (Content msg) > 0"

definition matchedIDs_of :: "string list \<Rightarrow> (string \<rightharpoonup> bool)" where
  "matchedIDs_of toolResultIDs = foldl (\<lambda>matchedIDs i. matchedIDs(i \<mapsto> True)) Map.empty toolResultIDs"

text \<open>
  The \<^verbatim>\<open>for i := 0; i < len(messages); i++\<close> loop of \<^verbatim>\<open>repairMessageHistory\<close>, with
  \<open>result\<close> the slice built so far; every \<^verbatim>\<open>continue\<close> is the call at \<open>i + 1\<close>.
\<close>

function repair_loop :: "MessageParam list \<Rightarrow> nat \<Rightarrow> MessageParam list \<Rightarrow> MessageParam list" where
  "repair_loop messages i result =
     (if i < length messages then
        let msg = messages ! i in
        if Role msg = MessageParamRoleAssistant \<and> length (extractToolUseIDs msg) > 0 then
          if i + 1 < length messages \<and> Role (messages ! (i + 1)) = MessageParamRoleUser then
            let toolResultIDs = extractToolResultIDs (messages ! (i + 1));
                matchedIDs = matchedIDs_of toolResultIDs;
                filteredMsg = filterToolUse msg (Some matchedIDs)
            in repair_loop messages (i + 1)
                 (if hasContent filteredMsg then result @ [filteredMsg] else result)
          else
            let filteredMsg = filterToolUse msg None
            in repair_loop messages (i + 1)
                 (if hasContent filteredMsg then result @ [filteredMsg] else result)
        else repair_loop messages (i + 1) (result @ [msg])
      else result)"
  by pat_completeness auto
termination
  by (relation "measure (\<lambda>(messages, i, result). length messages - i)") auto

definition repairMessageHistory :: "MessageParam list \<Rightarrow> MessageParam list" where
  "repairMessageHistory messages =
     (if length messages = 0 then messages else repair_loop messages 0 [])"

declare repair_loop.simps [simp del]

subsection \<open>Auxiliary notions for the repair proofs\<close>

text \<open>
  \<open>repair_head msg rest\<close> is what one iteration of the loop appends for \<open>msg\<close> when
  the messages after it are \<open>rest\<close>, and \<open>repair_rec\<close> is the loop as a structural
  recursion (shown equal to \<open>repairMessageHistory\<close> below). \<open>paired\<close> is the
  pairing invariant of a message list.
\<close>

definition is_tool_use :: "ContentBlockParamUnion \<Rightarrow> bool" where
  "is_tool_use b = (case b of OfToolUse _ _ _ \<Rightarrow> True | _ \<Rightarrow> False)"

definition tool_use_id :: "ContentBlockParamUnion \<Rightarrow> string" where
  "tool_use_id b = (case b of OfToolUse i _ _ \<Rightarrow> i | _ \<Rightarrow> [])"

definition repair_head :: "MessageParam \<Rightarrow> MessageParam list \<Rightarrow> MessageParam list" where
  "repair_head msg rest =
     (if Role msg = MessageParamRoleAssistant \<and> extractToolUseIDs msg \<noteq> [] then
        (let filteredMsg =
           (case rest of
              [] \<Rightarrow> filterToolUse msg None
            | nxt # _ \<Rightarrow>
                if Role nxt = MessageParamRoleUser
                then filterToolUse msg (Some (matchedIDs_of (extractToolResultIDs nxt)))
                else filterToolUse msg None)
         in if hasContent filteredMsg then [filteredMsg] else [])
      else [msg])"

fun repair_rec :: "MessageParam list \<Rightarrow> MessageParam list" where
  "repair_rec [] = []"
| "repair_rec (msg # rest) = repair_head msg rest @ repair_rec rest"

fun paired :: "MessageParam list \<Rightarrow> bool" where
  "paired [] = True"
| "paired (m # rest) \<longleftrightarrow>
     (Role m = MessageParamRoleAssistant \<longrightarrow>
        (\<forall>i \<in> set (extractToolUseIDs m).
           rest \<noteq> [] \<and> Role (hd rest) = MessageParamRoleUser
           \<and> i \<in> set (extractToolResultIDs (hd rest))))
     \<and> paired rest"

section \<open>Provider adapters: response translation and streaming\<close>

text \<open>A Go map value that may be nil: \<open>None\<close> is the nil map.\<close>

type_synonym go_map = "json_map option"

text \<open>
  \<^verbatim>\<open>json.Unmarshal\<close> into a \<^verbatim>\<open>map[string]any\<close> variable and \<^verbatim>\<open>json.Marshal\<close> belong to
  the standard library and are parameters: decoding gives an error or the map (the nil
  map for the JSON text \<^verbatim>\<open>null\<close>), encoding an error or the JSON text.
\<close>

type_synonym unmarshal = "string \<Rightarrow> string + go_map"

definition parseJSONArgs :: "unmarshal \<Rightarrow> string \<Rightarrow> go_map" where
  "parseJSONArgs json_Unmarshal argsJSON =
     (if argsJSON = [] then Some []
      else case json_Unmarshal argsJSON of
             Inl err \<Rightarrow> Some []
           | Inr args \<Rightarrow> args)"

text \<open>
  The \<^verbatim>\<open>input\<close> of a tool_use block as \<^verbatim>\<open>convertToolInput\<close> tells it apart: nil, a
  \<^verbatim>\<open>map[string]any\<close>, a \<^verbatim>\<open>json.RawMessage\<close>, or a value of another type.
\<close>

datatype 'x tool_input = InputNil | InputMap go_map | InputRaw string | InputOther 'x

definition convertToolInput ::
  "('x \<Rightarrow> string + string) \<Rightarrow> unmarshal \<Rightarrow> 'x tool_input \<Rightarrow> go_map" where
  "convertToolInput json_Marshal json_Unmarshal input =
     (case input of
        InputNil \<Rightarrow> Some []
      | InputMap m \<Rightarrow> m
      | InputRaw raw \<Rightarrow>
          (case json_Unmarshal raw of Inl err \<Rightarrow> Some [] | Inr result \<Rightarrow> result)
      | InputOther x \<Rightarrow>
          (case json_Marshal x of
             Inl err \<Rightarrow> Some []
           | Inr data \<Rightarrow>
               (case json_Unmarshal data of Inl err \<Rightarrow> Some [] | Inr result \<Rightarrow> result)))"

datatype Part = Text string | FunctionCall string string go_map

record genai_Content =
  genai_Role :: string
  Parts :: "Part list"

text \<open>\<open>FinishReasonZero\<close> is the zero value (the empty string) of the Go type.\<close>

datatype FinishReason =
    FinishReasonZero | FinishReasonUnspecified | FinishReasonStop | FinishReasonMaxTokens
  | FinishReasonSafety

record UsageMetadata =
  PromptTokenCount :: "32 word"
  CandidatesTokenCount :: "32 word"
  TotalTokenCount :: "32 word"

record LLMResponse =
  resp_Content :: genai_Content
  resp_UsageMetadata :: "UsageMetadata option"
  resp_FinishReason :: FinishReason
  Partial :: bool
  TurnComplete :: bool

definition RoleModel :: string where
  "RoleModel = ''model''"

subsection \<open>Protocol A: response translation\<close>

record ToolCall =
  tc_ID :: string
  tc_Name :: string
  tc_Arguments :: string

record ChatCompletionMessage =
  message_Content :: string
  ToolCalls :: "ToolCall list"

record Choice =
  choice_Message :: ChatCompletionMessage
  choice_FinishReason :: string

record CompletionUsage =
  PromptTokens :: "64 word"
  CompletionTokens :: "64 word"
  TotalTokens :: "64 word"

record ChatCompletion =
  Choices :: "Choice list"
  Usage :: CompletionUsage

definition convertUsageMetadata :: "CompletionUsage \<Rightarrow> UsageMetadata option" where
  "convertUsageMetadata usage =
     (if TotalTokens usage = 0 then None
      else Some \<lparr>PromptTokenCount = ucast (PromptTokens usage),
                 CandidatesTokenCount = ucast (CompletionTokens usage),
                 TotalTokenCount = ucast (TotalTokens usage)\<rparr>)"

definition convertFinishReason :: "string \<Rightarrow> FinishReason" where
  "convertFinishReason reason =
     (if reason = ''stop'' \<or> reason = ''tool_calls'' \<or> reason = ''function_call''
      then FinishReasonStop
      else if reason = ''length'' then FinishReasonMaxTokens
      else if reason = ''content_filter'' then FinishReasonSafety
      else FinishReasonUnspecified)"

definition message_parts :: "unmarshal \<Rightarrow> ChatCompletionMessage \<Rightarrow> Part list" where
  "message_parts json_Unmarshal msg =
     (if message_Content msg \<noteq> [] then [Text (message_Content msg)] else [])
     @ map (\<lambda>tc. FunctionCall (tc_ID tc) (tc_Name tc)
                   (parseJSONArgs json_Unmarshal (tc_Arguments tc))) (ToolCalls msg)"

definition ErrNoChoicesInResponse :: error where
  "ErrNoChoicesInResponse = Error ''no choices in OpenAI response''"

definition convertResponse :: "unmarshal \<Rightarrow> ChatCompletion option \<Rightarrow> error + LLMResponse" where
  "convertResponse json_Unmarshal resp =
     (case resp of
        None \<Rightarrow> Inl (Error ''received nil response from OpenAI API'')
      | Some r \<Rightarrow>
          if length (Choices r) = 0 then Inl ErrNoChoicesInResponse
          else let choice = hd (Choices r)
               in Inr \<lparr>resp_Content = \<lparr>genai_Role = RoleModel,
                                         Parts = message_parts json_Unmarshal (choice_Message choice)\<rparr>,
                        resp_UsageMetadata = convertUsageMetadata (Usage r),
                        resp_FinishReason = convertFinishReason (choice_FinishReason choice),
                        Partial = False,
                        TurnComplete = True\<rparr>)"

definition buildStreamFinalResponse :: "unmarshal \<Rightarrow> ChatCompletion \<Rightarrow> LLMResponse" where
  "buildStreamFinalResponse json_Unmarshal accum =
     \<lparr>resp_Content =
        \<lparr>genai_Role = RoleModel,
         Parts = (if length (Choices accum) > 0
                  then message_parts json_Unmarshal (choice_Message (hd (Choices accum)))
                  else [])\<rparr>,
      resp_UsageMetadata = convertUsageMetadata (Usage accum),
      resp_FinishReason =
        (if length (Choices accum) > 0
         then convertFinishReason (choice_FinishReason (hd (Choices accum)))
         else FinishReasonZero),
      Partial = False,
      TurnComplete = True\<rparr>"

subsection \<open>Streaming, Protocol A\<close>

text \<open>
  What the iterator hands to the consumer: the Go pair \<^verbatim>\<open>(*model.LLMResponse, error)\<close>.
  The consumer is its \<^verbatim>\<open>yield\<close> function: given the items delivered so far, the
  latest last, it answers whether to go on.
\<close>

type_synonym item = "LLMResponse option \<times> error option"
type_synonym consumer = "item list \<Rightarrow> bool"

record 'c ChunkChoice =
  Delta_Content :: string
  choice_rest :: 'c

record 'c ChatCompletionChunk =
  chunk_Choices :: "'c ChunkChoice list"
  chunk_rest :: 'c

text \<open>
  The SDK's stream: \<^verbatim>\<open>Next\<close> hands out the chunks in turn and \<^verbatim>\<open>Err\<close> is set when
  the stream broke after them.
\<close>

record 'ev sse_stream =
  stream_events :: "'ev list"
  stream_Err :: "error option"

definition partial_response :: "string \<Rightarrow> item" where
  "partial_response text =
     (Some \<lparr>resp_Content = \<lparr>genai_Role = RoleModel, Parts = [Text text]\<rparr>,
             resp_UsageMetadata = None,
             resp_FinishReason = FinishReasonZero,
             Partial = True,
             TurnComplete = False\<rparr>, None)"

definition empty_ChatCompletion :: ChatCompletion where
  "empty_ChatCompletion =
     \<lparr>Choices = [], Usage = \<lparr>PromptTokens = 0, CompletionTokens = 0, TotalTokens = 0\<rparr>\<rparr>"

text \<open>
  The \<^verbatim>\<open>for stream.Next()\<close> loop of the Protocol-A \<^verbatim>\<open>generateStream\<close>. The result is
  the accumulator, the items yielded, and whether the function returned from inside the
  loop (the consumer stopped).
\<close>

fun stream_loop_A ::
  "consumer \<Rightarrow> (ChatCompletion \<Rightarrow> 'c ChatCompletionChunk \<Rightarrow> ChatCompletion) \<Rightarrow>
   'c ChatCompletionChunk list \<Rightarrow> ChatCompletion \<Rightarrow> item list \<Rightarrow>
   ChatCompletion \<times> item list \<times> bool" where
  "stream_loop_A yield AddChunk [] accum out = (accum, out, False)"
| "stream_loop_A yield AddChunk (chunk # rest) accum out =
     (let accum' = AddChunk accum chunk in
      if length (chunk_Choices chunk) \<le> 0 \<or> Delta_Content (hd (chunk_Choices chunk)) = []
      then stream_loop_A yield AddChunk rest accum' out
      else let out' = out @ [partial_response (Delta_Content (hd (chunk_Choices chunk)))]
           in if \<not> yield out' then (accum', out', True)
              else stream_loop_A yield AddChunk rest accum' out')"

text \<open>
  \<^verbatim>\<open>generateStream\<close> of Protocol A. Its first statement calls
  \<^verbatim>\<open>buildChatCompletionParameters\<close>; \<open>built\<close> is what that call returned.
\<close>

definition generateStream_A ::
  "unmarshal \<Rightarrow> (ChatCompletion \<Rightarrow> 'c ChatCompletionChunk \<Rightarrow> ChatCompletion) \<Rightarrow>
   ('p \<Rightarrow> 'c ChatCompletionChunk sse_stream) \<Rightarrow> error + 'p \<Rightarrow> consumer \<Rightarrow> item list" where
  "generateStream_A json_Unmarshal AddChunk NewStreaming built yield =
     (case built of
        Inl err \<Rightarrow> [(None, Some err)]
      | Inr params \<Rightarrow>
          (let stream = NewStreaming params in
           case stream_loop_A yield AddChunk (stream_events stream) empty_ChatCompletion [] of
             (accum, out, returned) \<Rightarrow>
               if returned then out
               else (case stream_Err stream of
                       Some err \<Rightarrow> out @ [(None, Some err)]
                     | None \<Rightarrow>
                         out @ [(Some (buildStreamFinalResponse json_Unmarshal accum), None)])))"

subsection \<open>Protocol B: response translation and streaming\<close>

datatype 'x ContentBlock = TextBlock string | ToolUseBlock string string "'x tool_input" | OtherBlock

record Usage_B =
  InputTokens :: "64 word"
  OutputTokens :: "64 word"

record 'x Message_B =
  Content_B :: "'x ContentBlock list"
  Usage_B :: Usage_B
  StopReason :: string

definition convertStopReason :: "string \<Rightarrow> FinishReason" where
  "convertStopReason reason =
     (if reason = ''end_turn'' then FinishReasonStop
      else if reason = ''max_tokens'' then FinishReasonMaxTokens
      else if reason = ''stop_sequence'' then FinishReasonStop
      else if reason = ''tool_use'' then FinishReasonStop
      else FinishReasonUnspecified)"

fun block_parts ::
  "('x \<Rightarrow> string + string) \<Rightarrow> unmarshal \<Rightarrow> 'x ContentBlock list \<Rightarrow> Part list" where
  "block_parts json_Marshal json_Unmarshal [] = []"
| "block_parts json_Marshal json_Unmarshal (TextBlock text # bs) =
     Text text # block_parts json_Marshal json_Unmarshal bs"
| "block_parts json_Marshal json_Unmarshal (ToolUseBlock i n input # bs) =
     FunctionCall i n (convertToolInput json_Marshal json_Unmarshal input)
       # block_parts json_Marshal json_Unmarshal bs"
| "block_parts json_Marshal json_Unmarshal (OtherBlock # bs) =
     block_parts json_Marshal json_Unmarshal bs"

definition convertResponse_B ::
  "('x \<Rightarrow> string + string) \<Rightarrow> unmarshal \<Rightarrow> 'x Message_B \<Rightarrow> LLMResponse" where
  "convertResponse_B json_Marshal json_Unmarshal resp =
     \<lparr>resp_Content = \<lparr>genai_Role = RoleModel,
                       Parts = block_parts json_Marshal json_Unmarshal (Content_B resp)\<rparr>,
      resp_UsageMetadata =
        (if 0 <s InputTokens (Usage_B resp) \<or> 0 <s OutputTokens (Usage_B resp)
         then Some \<lparr>PromptTokenCount = ucast (InputTokens (Usage_B resp)),
                    CandidatesTokenCount = ucast (OutputTokens (Usage_B resp)),
                    TotalTokenCount =
                      ucast (InputTokens (Usage_B resp) + OutputTokens (Usage_B resp))\<rparr>
         else None),
      resp_FinishReason = convertStopReason (StopReason resp),
      Partial = False,
      TurnComplete = True\<rparr>"

datatype delta = TextDelta string | OtherDelta
datatype event_variant = ContentBlockDeltaEvent delta | OtherEvent

record 'e MessageStreamEvent =
  AsAny :: event_variant
  event_rest :: 'e

definition empty_Message :: "'x Message_B" where
  "empty_Message = \<lparr>Content_B = [], Usage_B = \<lparr>InputTokens = 0, OutputTokens = 0\<rparr>, StopReason = []\<rparr>"

fun stream_loop_B ::
  "consumer \<Rightarrow> ('x Message_B \<Rightarrow> 'e MessageStreamEvent \<Rightarrow> error + 'x Message_B) \<Rightarrow>
   'e MessageStreamEvent list \<Rightarrow> 'x Message_B \<Rightarrow> item list \<Rightarrow>
   'x Message_B \<times> item list \<times> bool" where
  "stream_loop_B yield Accumulate [] message out = (message, out, False)"
| "stream_loop_B yield Accumulate (event # rest) message out =
     (case Accumulate message event of
        Inl err \<Rightarrow> (message, out @ [(None, Some err)], True)
      | Inr message' \<Rightarrow>
          (case AsAny event of
             ContentBlockDeltaEvent (TextDelta text) \<Rightarrow>
               if text \<noteq> [] then
                 let out' = out @ [partial_response text]
                 in if \<not> yield out' then (message', out', True)
                    else stream_loop_B yield Accumulate rest message' out'
               else stream_loop_B yield Accumulate rest message' out
           | _ \<Rightarrow> stream_loop_B yield Accumulate rest message' out))"

definition generateStream_B ::
  "('x \<Rightarrow> string + string) \<Rightarrow> unmarshal \<Rightarrow>
   ('x Message_B \<Rightarrow> 'e MessageStreamEvent \<Rightarrow> error + 'x Message_B) \<Rightarrow>
   ('p \<Rightarrow> 'e MessageStreamEvent sse_stream) \<Rightarrow> error + 'p \<Rightarrow> consumer \<Rightarrow> item list" where
  "generateStream_B json_Marshal json_Unmarshal Accumulate NewStreaming built yield =
     (case built of
        Inl err \<Rightarrow> [(None, Some err)]
      | Inr params \<Rightarrow>
          (let stream = NewStreaming params in
           case stream_loop_B yield Accumulate (stream_events stream) empty_Message [] of
             (message, out, returned) \<Rightarrow>
               if returned then out
               else (case stream_Err stream of
                       Some err \<Rightarrow> out @ [(None, Some err)]
                     | None \<Rightarrow>
                         out @ [(Some ((convertResponse_B json_Marshal json_Unmarshal message)
                                        \<lparr>Partial := False, TurnComplete := True\<rparr>), None)])))"

subsection \<open>Auxiliary notions for the streaming proofs\<close>

text \<open>
  The kinds of item a stream yields, the texts that give rise to partial responses, and
  the events the Protocol-B accumulator takes before it rejects one.
\<close>

definition is_partial :: "item \<Rightarrow> bool" where
  "is_partial it =
     (case it of
        (Some r, None) \<Rightarrow>
          Partial r \<and> \<not> TurnComplete r
          \<and> (case Parts (resp_Content r) of [Text t] \<Rightarrow> t \<noteq> [] | _ \<Rightarrow> False)
      | _ \<Rightarrow> False)"

definition is_final :: "item \<Rightarrow> bool" where
  "is_final it = (case it of (Some r, None) \<Rightarrow> \<not> Partial r \<and> TurnComplete r | _ \<Rightarrow> False)"

definition is_error :: "item \<Rightarrow> bool" where
  "is_error it = (case it of (None, Some err) \<Rightarrow> True | _ \<Rightarrow> False)"

fun delta_texts_A :: "'c ChatCompletionChunk list \<Rightarrow> string list" where
  "delta_texts_A [] = []"
| "delta_texts_A (chunk # rest) =
     (if chunk_Choices chunk \<noteq> [] \<and> Delta_Content (hd (chunk_Choices chunk)) \<noteq> []
      then Delta_Content (hd (chunk_Choices chunk)) # delta_texts_A rest
      else delta_texts_A rest)"

definition event_text :: "'e MessageStreamEvent \<Rightarrow> string list" where
  "event_text event =
     (case AsAny event of
        ContentBlockDeltaEvent (TextDelta text) \<Rightarrow> if text \<noteq> [] then [text] else []
      | _ \<Rightarrow> [])"

definition delta_texts_B :: "'e MessageStreamEvent list \<Rightarrow> string list" where
  "delta_texts_B events = concat (map event_text events)"

fun accumulate_all ::
  "('m \<Rightarrow> 'ev \<Rightarrow> error + 'm) \<Rightarrow> 'ev list \<Rightarrow> 'm \<Rightarrow> error + 'm" where
  "accumulate_all Accumulate [] message = Inr message"
| "accumulate_all Accumulate (event # rest) message =
     (case Accumulate message event of
        Inl err \<Rightarrow> Inl err
      | Inr message' \<Rightarrow> accumulate_all Accumulate rest message')"

fun accepted_events :: "('m \<Rightarrow> 'ev \<Rightarrow> error + 'm) \<Rightarrow> 'ev list \<Rightarrow> 'm \<Rightarrow> 'ev list" where
  "accepted_events Accumulate [] message = []"
| "accepted_events Accumulate (event # rest) message =
     (case Accumulate message event of
        Inl err \<Rightarrow> []
      | Inr message' \<Rightarrow> event # accepted_events Accumulate rest message')"

subsection \<open>Example consumers and upstreams\<close>

text \<open>
  A consumer that never stops, an upstream that sends nothing and does not fail, a
  decoder that rejects every text, and an accumulator that appends the delta text of a
  chunk's first choice to the first choice of the completion. They instantiate the
  parameters in the examples below.
\<close>

definition never_stops :: consumer where
  "never_stops items = True"

definition silent_upstream :: "'p \<Rightarrow> (unit ChatCompletionChunk) sse_stream" where
  "silent_upstream params = \<lparr>stream_events = [], stream_Err = None\<rparr>"

definition rejecting_Unmarshal :: unmarshal where
  "rejecting_Unmarshal text = Inl ''invalid character''"

definition appending_AddChunk :: "ChatCompletion \<Rightarrow> unit ChatCompletionChunk \<Rightarrow> ChatCompletion" where
  "appending_AddChunk accum chunk =
     accum\<lparr>Choices :=
       [\<lparr>choice_Message =
            \<lparr>message_Content =
               (case Choices accum of [] \<Rightarrow> [] | c # _ \<Rightarrow> message_Content (choice_Message c))
               @ (case chunk_Choices chunk of [] \<Rightarrow> [] | d # _ \<Rightarrow> Delta_Content d),
             ToolCalls = []\<rparr>,
          choice_FinishReason = ''stop''\<rparr>]\<rparr>"

definition text_chunk :: "string \<Rightarrow> unit ChatCompletionChunk" where
  "text_chunk text = \<lparr>chunk_Choices = [\<lparr>Delta_Content = text, choice_rest = ()\<rparr>], chunk_rest = ()\<rparr>"

definition text_event :: "string \<Rightarrow> unit MessageStreamEvent" where
  "text_event text = \<lparr>AsAny = ContentBlockDeltaEvent (TextDelta text), event_rest = ()\<rparr>"

definition appending_Accumulate ::
  "unit Message_B \<Rightarrow> unit MessageStreamEvent \<Rightarrow> error + unit Message_B" where
  "appending_Accumulate message event =
     (case AsAny event of
        ContentBlockDeltaEvent (TextDelta text) \<Rightarrow>
          Inr (message\<lparr>Content_B :=
                 [TextBlock ((case Content_B message of [TextBlock t] \<Rightarrow> t | _ \<Rightarrow> []) @ text)]\<rparr>)
      | ContentBlockDeltaEvent OtherDelta \<Rightarrow> Inr message
      | OtherEvent \<Rightarrow> Inl (Error ''unexpected event''))"

definition hello_upstream_A :: "unit \<Rightarrow> (unit ChatCompletionChunk) sse_stream" where
  "hello_upstream_A params =
     \<lparr>stream_events = [text_chunk ''He'', text_chunk [], text_chunk ''llo'', text_chunk ''!''],
      stream_Err = None\<rparr>"

definition hello_upstream_B :: "unit \<Rightarrow> (unit MessageStreamEvent) sse_stream" where
  "hello_upstream_B params =
     \<lparr>stream_events = [text_event ''He'', text_event ''llo'', text_event ''!''],
      stream_Err = None\<rparr>"

definition failing_Marshal :: "unit \<Rightarrow> string + string" where
  "failing_Marshal x = Inl ''unsupported type''"

section \<open>Protocol A: building the request\<close>

text \<open>
  A \<^verbatim>\<open>genai.Part\<close> of a request, as the struct it is: the switch in
  \<^verbatim>\<open>convertContentToMessages\<close> tests its fields in a fixed order and takes the first
  that is set. \<^verbatim>\<open>Response\<close> and \<^verbatim>\<open>Args\<close> are \<^verbatim>\<open>map[string]any\<close> values of a
  type \<open>'v\<close> left open; \<^verbatim>\<open>json.Marshal\<close> over them is a parameter, and so is
  \<^verbatim>\<open>base64.StdEncoding.EncodeToString\<close>.
\<close>

record 'v FunctionResponse =
  fr_ID :: string
  fr_Response :: 'v

record 'v FunctionCallPart =
  fc_ID :: string
  fc_Name :: string
  fc_Args :: 'v

record Blob =
  MIMEType :: string
  Data :: "byte list"

record 'v req_Part =
  part_FunctionResponse :: "'v FunctionResponse option"
  part_FunctionCall :: "'v FunctionCallPart option"
  part_Text :: string
  part_InlineData :: "Blob option"

record 'v req_Content =
  content_Role :: string
  content_Parts :: "'v req_Part list"

text \<open>The messages of the chat-completion request, by the SDK constructor that makes them.\<close>

record ToolCallParam =
  tcp_ID :: string
  tcp_Name :: string
  tcp_Arguments :: string

record ImageParam =
  image_URL :: string
  image_Detail :: string

datatype ContentPartParam = PartOfText string | PartOfImageURL ImageParam

datatype MessageParam_A =
    SystemMessage string
  | UserMessage string
  | UserMessageParts "ContentPartParam list"
  | AssistantMessage "string option" "ToolCallParam list"
  | ToolMessage string string

fun joinTexts :: "string list \<Rightarrow> string" where
  "joinTexts [] = []"
| "joinTexts [t] = t"
| "joinTexts (t # rest) = t @ [CHR 0x0A] @ joinTexts rest"

definition extractText :: "'v req_Content option \<Rightarrow> string" where
  "extractText content =
     (case content of
        None \<Rightarrow> []
      | Some c \<Rightarrow> joinTexts (filter (\<lambda>text. text \<noteq> []) (map part_Text (content_Parts c))))"

definition convertRole :: "string \<Rightarrow> string" where
  "convertRole role = (if role = ''model'' then ''assistant'' else role)"

definition convertInlineDataToImage :: "(byte list \<Rightarrow> string) \<Rightarrow> Blob \<Rightarrow> ImageParam option" where
  "convertInlineDataToImage base64 data =
     (if MIMEType data \<notin> set [''image/jpg'', ''image/jpeg'', ''image/png'', ''image/gif'', ''image/webp'']
      then None
      else Some \<lparr>image_URL = ''data:'' @ MIMEType data @ '';base64,'' @ base64 (Data data),
                 image_Detail = ''auto''\<rparr>)"

definition buildUserMessage :: "string list \<Rightarrow> ImageParam list \<Rightarrow> MessageParam_A" where
  "buildUserMessage texts images =
     (if length images = 0 then UserMessage (joinTexts texts)
      else UserMessageParts (map PartOfText texts @ map PartOfImageURL images))"

definition buildAssistantMessage :: "string list \<Rightarrow> ToolCallParam list \<Rightarrow> MessageParam_A" where
  "buildAssistantMessage texts toolCalls =
     AssistantMessage (if length texts > 0 then Some (joinTexts texts) else None)
                      (if length toolCalls > 0 then toolCalls else [])"

definition buildRoleMessage ::
  "string \<Rightarrow> string list \<Rightarrow> ImageParam list \<Rightarrow> ToolCallParam list \<Rightarrow> MessageParam_A option" where
  "buildRoleMessage role texts images toolCalls =
     (if convertRole role = ''user'' then Some (buildUserMessage texts images)
      else if convertRole role = ''assistant'' then Some (buildAssistantMessage texts toolCalls)
      else if convertRole role = ''system'' then Some (SystemMessage (joinTexts texts))
      else None)"

text \<open>
  The loop of \<^verbatim>\<open>convertContentToMessages\<close> over the parts of one content, with its four
  accumulators and the adapter state that \<^verbatim>\<open>normalizeToolCallID\<close> updates. A failure of
  \<^verbatim>\<open>json.Marshal\<close> returns from the function with the wrapped error.
\<close>

fun convert_parts ::
  "('v \<Rightarrow> error + string) \<Rightarrow> (string \<Rightarrow> byte list) \<Rightarrow> (byte list \<Rightarrow> string) \<Rightarrow>
   'v req_Part list \<Rightarrow> MessageParam_A list \<Rightarrow> string list \<Rightarrow> ToolCallParam list \<Rightarrow>
   ImageParam list \<Rightarrow> Model \<Rightarrow>
   (error + MessageParam_A list \<times> string list \<times> ToolCallParam list \<times> ImageParam list) \<times> Model" where
  "convert_parts json_Marshal sha256_sum base64 [] messages textParts toolCalls imageParts m =
     (Inr (messages, textParts, toolCalls, imageParts), m)"
| "convert_parts json_Marshal sha256_sum base64 (part # rest) messages textParts toolCalls imageParts m =
     (case part_FunctionResponse part of
        Some fr \<Rightarrow>
          (case json_Marshal (fr_Response fr) of
             Inl err \<Rightarrow> (Inl (Wrap ''failed to marshal function response'' err), m)
           | Inr responseJSON \<Rightarrow>
               (case normalizeToolCallID sha256_sum m (fr_ID fr) of
                  (normalizedID, m') \<Rightarrow>
                    convert_parts json_Marshal sha256_sum base64 rest
                      (messages @ [ToolMessage responseJSON normalizedID])
                      textParts toolCalls imageParts m'))
      | None \<Rightarrow>
          (case part_FunctionCall part of
             Some fc \<Rightarrow>
               (case json_Marshal (fc_Args fc) of
                  Inl err \<Rightarrow> (Inl (Wrap ''failed to marshal function args'' err), m)
                | Inr argsJSON \<Rightarrow>
                    (case normalizeToolCallID sha256_sum m (fc_ID fc) of
                       (normalizedID, m') \<Rightarrow>
                         convert_parts json_Marshal sha256_sum base64 rest messages textParts
                           (toolCalls @ [\<lparr>tcp_ID = normalizedID, tcp_Name = fc_Name fc,
                                           tcp_Arguments = argsJSON\<rparr>])
                           imageParts m'))
           | None \<Rightarrow>
               (if part_Text part \<noteq> []
                then convert_parts json_Marshal sha256_sum base64 rest messages
                       (textParts @ [part_Text part]) toolCalls imageParts m
                else (case part_InlineData part of
                        Some data \<Rightarrow>
                          (case convertInlineDataToImage base64 data of
                             Some img \<Rightarrow>
                               convert_parts json_Marshal sha256_sum base64 rest messages textParts
                                 toolCalls (imageParts @ [img]) m
                           | None \<Rightarrow>
                               convert_parts json_Marshal sha256_sum base64 rest messages textParts
                                 toolCalls imageParts m)
                      | None \<Rightarrow>
                          convert_parts json_Marshal sha256_sum base64 rest messages textParts
                            toolCalls imageParts m))))"

definition convertContentToMessages ::
  "('v \<Rightarrow> error + string) \<Rightarrow> (string \<Rightarrow> byte list) \<Rightarrow> (byte list \<Rightarrow> string) \<Rightarrow>
   Model \<Rightarrow> 'v req_Content \<Rightarrow> (error + MessageParam_A list) \<times> Model" where
  "convertContentToMessages json_Marshal sha256_sum base64 m content =
     (case convert_parts json_Marshal sha256_sum base64 (content_Parts content) [] [] [] [] m of
        (Inl err, m') \<Rightarrow> (Inl err, m')
      | (Inr (messages, textParts, toolCalls, imageParts), m') \<Rightarrow>
          (if length textParts > 0 \<or> length imageParts > 0 \<or> length toolCalls > 0
           then (case buildRoleMessage (content_Role content) textParts imageParts toolCalls of
                   Some msg \<Rightarrow> (Inr (messages @ [msg]), m')
                 | None \<Rightarrow> (Inr messages, m'))
           else (Inr messages, m')))"

text \<open>
  The request and the parameters built from it. \<^verbatim>\<open>applyGenerationConfig\<close> copies the
  optional settings of the configuration into the parameters and has no error result;
  the parameters keep the configuration it reads from.
\<close>

record ('v, 'g) GenerateContentConfig =
  SystemInstruction :: "'v req_Content option"
  config_settings :: 'g

record ('v, 'g) LLMRequest =
  req_Contents :: "'v req_Content list"
  req_Config :: "('v, 'g) GenerateContentConfig option"

record ('v, 'g) ChatCompletionNewParams =
  params_Model :: string
  params_Messages :: "MessageParam_A list"
  params_Config :: "('v, 'g) GenerateContentConfig option"

fun convert_contents ::
  "('v \<Rightarrow> error + string) \<Rightarrow> (string \<Rightarrow> byte list) \<Rightarrow> (byte list \<Rightarrow> string) \<Rightarrow>
   'v req_Content list \<Rightarrow> MessageParam_A list \<Rightarrow> Model \<Rightarrow> (error + MessageParam_A list) \<times> Model" where
  "convert_contents json_Marshal sha256_sum base64 [] message m = (Inr message, m)"
| "convert_contents json_Marshal sha256_sum base64 (content # rest) message m =
     (case convertContentToMessages json_Marshal sha256_sum base64 m content of
        (Inl err, m') \<Rightarrow> (Inl err, m')
      | (Inr msgs, m') \<Rightarrow> convert_contents json_Marshal sha256_sum base64 rest (message @ msgs) m')"

definition buildChatCompletionParameters ::
  "('v \<Rightarrow> error + string) \<Rightarrow> (string \<Rightarrow> byte list) \<Rightarrow> (byte list \<Rightarrow> string) \<Rightarrow>
   string \<Rightarrow> Model \<Rightarrow> ('v, 'g) LLMRequest \<Rightarrow> (error + ('v, 'g) ChatCompletionNewParams) \<times> Model" where
  "buildChatCompletionParameters json_Marshal sha256_sum base64 modelName m req =
     (let message =
            (case req_Config req of
               None \<Rightarrow> []
             | Some cfg \<Rightarrow>
                 (case SystemInstruction cfg of
                    None \<Rightarrow> []
                  | Some instruction \<Rightarrow>
                      (if extractText (Some instruction) \<noteq> []
                       then [SystemMessage (extractText (Some instruction))]
                       else [])))
      in case convert_contents json_Marshal sha256_sum base64 (req_Contents req) message m of
           (Inl err, m') \<Rightarrow> (Inl err, m')
         | (Inr message', m') \<Rightarrow>
             (Inr \<lparr>params_Model = modelName, params_Messages = message',
                   params_Config = req_Config req\<rparr>, m'))"

subsection \<open>An example request\<close>

text \<open>
  A tool result \<^verbatim>\<open>map[string]any{"score": math.NaN()}\<close>: \<^verbatim>\<open>encoding/json\<close> has no
  rendering for a NaN and \<^verbatim>\<open>json.Marshal\<close> fails on it with
  \<^verbatim>\<open>json: unsupported value: NaN\<close>. The example encoder renders an object of integers
  and fails on a NaN; the keys used need no escaping. The identifiers of the example are
  short and it has no inline data, so the digest and the base-64 encoder are not applied;
  the stand-ins return zero bytes and the empty text.
\<close>

datatype number = Num int | NaN

definition render_number :: "number \<Rightarrow> string" where
  "render_number v =
     (case v of
        Num i \<Rightarrow> (if i < 0 then CHR ''-'' # fmt_nat (nat (- i)) else fmt_nat (nat i))
      | NaN \<Rightarrow> [])"

fun render_fields :: "(string \<times> number) list \<Rightarrow> string" where
  "render_fields [] = []"
| "render_fields [(k, v)] = [CHR 0x22] @ k @ [CHR 0x22] @ '':'' @ render_number v"
| "render_fields ((k, v) # rest) =
     [CHR 0x22] @ k @ [CHR 0x22] @ '':'' @ render_number v @ '','' @ render_fields rest"

definition number_Marshal :: "(string \<times> number) list \<Rightarrow> error + string" where
  "number_Marshal obj =
     (if NaN \<in> set (map snd obj) then Inl (Error ''json: unsupported value: NaN'')
      else Inr (''{'' @ render_fields obj @ ''}''))"

definition zero_sum256 :: "string \<Rightarrow> byte list" where
  "zero_sum256 ident = replicate 32 0"

definition empty_base64 :: "byte list \<Rightarrow> string" where
  "empty_base64 data = []"

definition fresh_Model :: Model where
  "fresh_Model = \<lparr>toolCall = Map.empty\<rparr>"

definition nan_request :: "((string \<times> number) list, unit) LLMRequest" where
  "nan_request =
     \<lparr>req_Contents =
        [\<lparr>content_Role = ''user'',
          content_Parts =
            [\<lparr>part_FunctionResponse = Some \<lparr>fr_ID = ''call_1'', fr_Response = [(''score'', NaN)]\<rparr>,
              part_FunctionCall = None, part_Text = [], part_InlineData = None\<rparr>]\<rparr>],
      req_Config = None\<rparr>"

section \<open>Memory service: search\<close>

text \<open>
  \<^verbatim>\<open>PostgresMemoryService.Search\<close>. The embedding model (nil when none is configured)
  and the three SQL queries run by \<^verbatim>\<open>searchByVector\<close>, \<^verbatim>\<open>searchByText\<close> and
  \<^verbatim>\<open>searchRecent\<close> are parameters: each query gives an error or the entries scanned
  from its rows, at most ten by its \<^verbatim>\<open>LIMIT\<close>.
\<close>

record SearchRequest =
  AppName :: string
  UserID :: string
  Query :: string

record Entry =
  entry_Content :: string
  entry_Author :: string
  entry_Timestamp :: int

definition Search ::
  "(string \<Rightarrow> error + 'f list) option \<Rightarrow>
   (SearchRequest \<Rightarrow> 'f list \<Rightarrow> error + Entry list) \<Rightarrow>
   (SearchRequest \<Rightarrow> error + Entry list) \<Rightarrow>
   (SearchRequest \<Rightarrow> error + Entry list) \<Rightarrow>
   SearchRequest \<Rightarrow> error + Entry list" where
  "Search embeddingModel searchByVector searchByText searchRecent req =
     (case (case embeddingModel of
              Some Embed \<Rightarrow>
                if Query req \<noteq> [] then
                  (case Embed (Query req) of
                     Inr embedding \<Rightarrow>
                       if length embedding > 0 then searchByVector req embedding else Inr []
                   | Inl embErr \<Rightarrow> Inr [])
                else Inr []
            | None \<Rightarrow> Inr []) of
        Inl err \<Rightarrow> Inl err
      | Inr memories \<Rightarrow>
          (case (if length memories = 0 \<and> Query req \<noteq> [] then searchByText req
                 else Inr memories) of
             Inl err \<Rightarrow> Inl err
           | Inr memories \<Rightarrow>
               if length memories = 0 then searchRecent req else Inr memories))"

subsection \<open>An example store\<close>

text \<open>
  A store with one entry for the user, whose text the query \<^verbatim>\<open>"quantum"\<close> does not
  match: the full-text query returns no row and the recency query returns the entry.
\<close>

definition kubernetes_entry :: Entry where
  "kubernetes_entry =
     \<lparr>entry_Content = ''Tell me about Kubernetes'', entry_Author = ''user'', entry_Timestamp = 1\<rparr>"

definition no_vector_rows :: "SearchRequest \<Rightarrow> unit list \<Rightarrow> error + Entry list" where
  "no_vector_rows req embedding = Inr []"

definition no_text_rows :: "SearchRequest \<Rightarrow> error + Entry list" where
  "no_text_rows req = Inr []"

definition recent_rows :: "SearchRequest \<Rightarrow> error + Entry list" where
  "recent_rows req = Inr [kubernetes_entry]"

section \<open>Cached session service\<close>

subsection \<open>The cache\<close>

text \<open>
  The Redis server behind \<^verbatim>\<open>redis.UniversalClient\<close>: a store from keys to a value (a
  string, a list or a set) and the key's remaining time to live (\<open>None\<close>: the key does
  not expire; a key that has expired is absent). Durations are \<^verbatim>\<open>time.Duration\<close>
  values, in nanoseconds. The commands are modelled at the level of the client's
  methods; the sub-second rounding the client applies to a duration is not modelled.
  \<open>faults\<close> is the schedule of connection failures: each command takes the head off,
  and fails without touching the store when it is \<open>True\<close>.
\<close>

datatype redis_value = RString string | RList "string list" | RSet "string list"

record redis_entry =
  entry_value :: redis_value
  entry_ttl :: "int option"

record rdb =
  store :: "string \<rightharpoonup> redis_entry"
  faults :: "bool list"

definition Second :: int where
  "Second = 1000000000"

definition KeepTTL :: int where
  "KeepTTL = - 1"

definition redis_Nil :: error where
  "redis_Nil = Error ''redis: nil''"

definition connection_error :: error where
  "connection_error = Error ''connection refused''"

definition WRONGTYPE :: error where
  "WRONGTYPE = Error ''WRONGTYPE Operation against a key holding the wrong kind of value''"

definition attempt :: "rdb \<Rightarrow> bool \<times> rdb" where
  "attempt r = (case faults r of [] \<Rightarrow> (False, r) | f # fs \<Rightarrow> (f, r\<lparr>faults := fs\<rparr>))"

definition put :: "string \<Rightarrow> redis_value \<Rightarrow> int option \<Rightarrow> rdb \<Rightarrow> rdb" where
  "put key v ttl r = r\<lparr>store := (store r)(key \<mapsto> \<lparr>entry_value = v, entry_ttl = ttl\<rparr>)\<rparr>"

definition ttl_of :: "rdb \<Rightarrow> string \<Rightarrow> int option" where
  "ttl_of r key = (case store r key of None \<Rightarrow> None | Some e \<Rightarrow> entry_ttl e)"

text \<open>\<^verbatim>\<open>SET key value [EX|PX ttl | KEEPTTL]\<close> as \<^verbatim>\<open>rdb.Set(ctx, key, value, expiration)\<close>.\<close>

definition rdb_Set :: "rdb \<Rightarrow> string \<Rightarrow> string \<Rightarrow> int \<Rightarrow> error option \<times> rdb" where
  "rdb_Set r key v expiration =
     (case attempt r of
        (True, r') \<Rightarrow> (Some connection_error, r')
      | (False, r') \<Rightarrow>
          (None, put key (RString v)
                   (if expiration > 0 then Some expiration
                    else if expiration = KeepTTL then ttl_of r' key
                    else None) r'))"

text \<open>\<^verbatim>\<open>GET key\<close>: \<^verbatim>\<open>redis.Nil\<close> when the key is absent.\<close>

definition rdb_Get :: "rdb \<Rightarrow> string \<Rightarrow> (error + string) \<times> rdb" where
  "rdb_Get r key =
     (case attempt r of
        (True, r') \<Rightarrow> (Inl connection_error, r')
      | (False, r') \<Rightarrow>
          (case store r' key of
             None \<Rightarrow> (Inl redis_Nil, r')
           | Some e \<Rightarrow>
               (case entry_value e of
                  RString v \<Rightarrow> (Inr v, r')
                | _ \<Rightarrow> (Inl WRONGTYPE, r'))))"


text \<open>\<^verbatim>\<open>RPUSH key value\<close>.\<close>

definition rdb_RPush :: "rdb \<Rightarrow> string \<Rightarrow> string \<Rightarrow> error option \<times> rdb" where
  "rdb_RPush r key v =
     (case attempt r of
        (True, r') \<Rightarrow> (Some connection_error, r')
      | (False, r') \<Rightarrow>
          (case store r' key of
             None \<Rightarrow> (None, put key (RList [v]) None r')
           | Some e \<Rightarrow>
               (case entry_value e of
                  RList vs \<Rightarrow> (None, put key (RList (vs @ [v])) (entry_ttl e) r')
                | _ \<Rightarrow> (Some WRONGTYPE, r'))))"

text \<open>
  \<^verbatim>\<open>EXPIRE key ttl\<close>: sets the time to live of an existing key, and is not an error on
  an absent one; a time that is not positive deletes the key.
\<close>

definition rdb_Expire :: "rdb \<Rightarrow> string \<Rightarrow> int \<Rightarrow> error option \<times> rdb" where
  "rdb_Expire r key expiration =
     (case attempt r of
        (True, r') \<Rightarrow> (Some connection_error, r')
      | (False, r') \<Rightarrow>
          (case store r' key of
             None \<Rightarrow> (None, r')
           | Some e \<Rightarrow>
               if expiration > 0 then (None, put key (entry_value e) (Some expiration) r')
               else (None, r'\<lparr>store := (store r')(key := None)\<rparr>)))"

subsection \<open>Codecs\<close>

text \<open>
  The JSON codecs are library code (\<^verbatim>\<open>sonic\<close> in the service, \<^verbatim>\<open>cjson\<close> inside the
  script) and are parameters, gathered in one record: each returns an error or its
  result. \<open>script_rewrite data state timestamp\<close> is the script's decoding of the stored
  envelope and of the new state, the two assignments and the encoding.
\<close>

record storableSession =
  ID :: string
  AppName_s :: string
  UserID_s :: string
  State :: json_map
  LastUpdateTime :: int

record Event =
  ev_ID :: string
  ev_Timestamp :: int
  ev_body :: string

record codec =
  Marshal_session :: "storableSession \<Rightarrow> error + string"
  Unmarshal_session :: "string \<Rightarrow> error + storableSession"
  Marshal_event :: "Event \<Rightarrow> error + string"
  Marshal_state :: "json_map \<Rightarrow> error + string"
  script_rewrite :: "string \<Rightarrow> string \<Rightarrow> string \<Rightarrow> error + string"

subsection \<open>The state of a session\<close>

text \<open>
  \<^verbatim>\<open>updateStateScript\<close>, run atomically by the server on \<open>KEYS[1] = key\<close>,
  \<open>ARGV = [stateJSON, ttl, timestamp]\<close>. Its reply is an error reply (the script
  returned a table with an \<^verbatim>\<open>err\<close> field, or a call raised) or the status it returns.
\<close>

datatype lua_reply = ReplyError string | ReplyNil | ReplyStatus string

definition updateStateScript ::
  "codec \<Rightarrow> rdb \<Rightarrow> string \<Rightarrow> string \<Rightarrow> int \<Rightarrow> string \<Rightarrow> lua_reply \<times> rdb" where
  "updateStateScript cd r key stateJSON ttl timestamp =
     (case store r key of
        None \<Rightarrow> (ReplyError ''session not found'', r)
      | Some e \<Rightarrow>
          (case entry_value e of
             RString data \<Rightarrow>
               (case script_rewrite cd data stateJSON timestamp of
                  Inl err \<Rightarrow> (ReplyError ''cjson error'', r)
                | Inr updated \<Rightarrow>
                    (ReplyStatus ''OK'',
                     if ttl > 0 then put key (RString updated) (Some (ttl * Second)) r
                     else put key (RString updated) None r))
           | _ \<Rightarrow> (ReplyError ''WRONGTYPE'', r)))"

text \<open>
  \<^verbatim>\<open>updateStateScript.Run(...).Result()\<close>: the client turns an error reply into an error
  carrying the reply's message and a nil reply into \<^verbatim>\<open>redis.Nil\<close>.
\<close>

definition Script_Run ::
  "codec \<Rightarrow> rdb \<Rightarrow> string \<Rightarrow> string \<Rightarrow> int \<Rightarrow> string \<Rightarrow> (error + string) \<times> rdb" where
  "Script_Run cd r key stateJSON ttl timestamp =
     (case attempt r of
        (True, r') \<Rightarrow> (Inl connection_error, r')
      | (False, r') \<Rightarrow>
          (case updateStateScript cd r' key stateJSON ttl timestamp of
             (ReplyError msg, r'') \<Rightarrow> (Inl (Error msg), r'')
           | (ReplyNil, r'') \<Rightarrow> (Inl redis_Nil, r'')
           | (ReplyStatus s, r'') \<Rightarrow> (Inr s, r'')))"

text \<open>
  \<^verbatim>\<open>redisState\<close>: the local \<^verbatim>\<open>sync.Map\<close>, whether a client is attached, the session
  key and the time to live.
\<close>

record redisState =
  data :: json_map
  has_client :: bool
  state_key :: string
  state_ttl :: int

definition toMap :: "redisState \<Rightarrow> json_map" where
  "toMap s = data s"

text \<open>\<^verbatim>\<open>int64(d.Seconds())\<close>: whole seconds, truncated towards zero.\<close>

definition whole_seconds :: "int \<Rightarrow> int" where
  "whole_seconds d = (if d \<ge> 0 then d div Second else - ((- d) div Second))"

definition persistAtomic :: "codec \<Rightarrow> rdb \<Rightarrow> redisState \<Rightarrow> string \<Rightarrow> error option \<times> rdb" where
  "persistAtomic cd r s timestamp =
     (if \<not> has_client s then (None, r)
      else case Marshal_state cd (toMap s) of
             Inl err \<Rightarrow> (Some (Wrap ''failed to marshal state'' err), r)
           | Inr stateJSON \<Rightarrow>
               (case Script_Run cd r (state_key s) stateJSON (whole_seconds (state_ttl s))
                       timestamp of
                  (Inl err, r') \<Rightarrow>
                    if err = redis_Nil then (None, r')
                    else (Some (Wrap ''failed to persist state atomically'' err), r')
                | (Inr result, r') \<Rightarrow>
                    if result \<noteq> ''OK''
                    then (Some (Error ''unexpected result from state update script''), r')
                    else (None, r')))"

text \<open>\<^verbatim>\<open>redisState.Set\<close>: the error returned, the state and the cache afterwards.\<close>

definition state_Set ::
  "codec \<Rightarrow> rdb \<Rightarrow> redisState \<Rightarrow> string \<Rightarrow> any \<Rightarrow> string \<Rightarrow> error option \<times> redisState \<times> rdb" where
  "state_Set cd r s key v timestamp =
     (let s' = s\<lparr>data := AList.update key v (data s)\<rparr> in
      case persistAtomic cd r s' timestamp of (err, r') \<Rightarrow> (err, s', r'))"

definition state_Get :: "redisState \<Rightarrow> string \<Rightarrow> error + any" where
  "state_Get s key =
     (case map_of (data s) key of
        Some v \<Rightarrow> Inr v
      | None \<Rightarrow> Inl (Error ''state key does not exist''))"

subsection \<open>The service\<close>

definition DefaultSessionTTL :: int where
  "DefaultSessionTTL = 24 * 3600 * Second"

definition ErrNilSession :: error where
  "ErrNilSession = Error ''session cannot be nil''"


record RedisSessionService =
  svc_ttl :: int


definition buildSessionKey :: "string \<Rightarrow> string \<Rightarrow> string \<Rightarrow> string" where
  "buildSessionKey appName userID sessionID =
     ''session:'' @ appName @ '':'' @ userID @ '':'' @ sessionID"

definition buildSessionIndexKey :: "string \<Rightarrow> string \<Rightarrow> string" where
  "buildSessionIndexKey appName userID = ''session:'' @ appName @ '':'' @ userID"

definition buildEventsKey :: "string \<Rightarrow> string \<Rightarrow> string \<Rightarrow> string" where
  "buildEventsKey appName userID sessionID =
     ''events:'' @ appName @ '':'' @ userID @ '':'' @ sessionID"

record redisSession =
  sess_id :: string
  sess_appName :: string
  sess_userID :: string
  sess_state :: redisState
  sess_events_key :: string
  sess_lastUpdateTime :: int




text \<open>
  \<^verbatim>\<open>AppendEvent\<close>; \<open>sess\<close> is \<open>None\<close> for a nil session. \<open>now1\<close> and \<open>now2\<close> are the
  two readings of the wall clock.
\<close>

definition AppendEvent ::
  "codec \<Rightarrow> RedisSessionService \<Rightarrow> rdb \<Rightarrow> redisSession option \<Rightarrow> Event \<Rightarrow> string \<Rightarrow>
   int \<Rightarrow> int \<Rightarrow> error option \<times> rdb" where
  "AppendEvent cd s r sess evt fresh_id now1 now2 =
     (case sess of
        None \<Rightarrow> (Some ErrNilSession, r)
      | Some sess \<Rightarrow>
          (let evt1 = evt\<lparr>ev_Timestamp := now1\<rparr>;
               evt2 = (if ev_ID evt1 = [] then evt1\<lparr>ev_ID := fresh_id\<rparr> else evt1)
           in case Marshal_event cd evt2 of
                Inl err \<Rightarrow> (Some (Wrap ''failed to marshal event'' err), r)
              | Inr bytes \<Rightarrow>
                  (let evKey = buildEventsKey (sess_appName sess) (sess_userID sess) (sess_id sess)
                   in case rdb_RPush r evKey bytes of
                        (Some err, r1) \<Rightarrow> (Some (Wrap ''failed to append event'' err), r1)
                      | (None, r1) \<Rightarrow>
                          (case rdb_Expire r1 evKey (svc_ttl s) of
                             (_, r2) \<Rightarrow>
                               (let key = buildSessionKey (sess_appName sess) (sess_userID sess)
                                            (sess_id sess)
                                in case rdb_Get r2 key of
                                     (Inl err, r3) \<Rightarrow>
                                       (Some (Wrap ''failed to get session for update'' err), r3)
                                   | (Inr sessData, r3) \<Rightarrow>
                                       (case Unmarshal_session cd sessData of
                                          Inl err \<Rightarrow>
                                            (Some (Wrap ''failed to unmarshal session'' err), r3)
                                        | Inr storable \<Rightarrow>
                                            (let storable' =
                                                   storable\<lparr>State := toMap (sess_state sess),
                                                            LastUpdateTime := now2\<rparr>
                                             in case Marshal_session cd storable' of
                                                  Inl err \<Rightarrow>
                                                    (Some (Wrap ''failed to marshal updated session''
                                                             err), r3)
                                                | Inr updatedData \<Rightarrow>
                                                    (case rdb_Set r3 key updatedData (svc_ttl s) of
                                                       (Some err, r4) \<Rightarrow>
                                                         (Some (Wrap ''failed to update session''
                                                                  err), r4)
                                                     | (None, r4) \<Rightarrow> (None, r4)))))))))"

subsection \<open>Auxiliary notions and an example cache\<close>

text \<open>
  The list held at a key (empty when the key is absent or holds something else), and
  trivial codecs for the examples: every encoding is a fixed text and every envelope
  decodes.
\<close>

definition events_list :: "rdb \<Rightarrow> string \<Rightarrow> string list" where
  "events_list r key =
     (case store r key of
        Some e \<Rightarrow> (case entry_value e of RList vs \<Rightarrow> vs | _ \<Rightarrow> [])
      | None \<Rightarrow> [])"

definition example_codec :: codec where
  "example_codec =
     \<lparr>Marshal_session = (\<lambda>s. Inr ''{session}''),
      Unmarshal_session = (\<lambda>text. Inr \<lparr>ID = ''s1'', AppName_s = ''app'', UserID_s = ''u1'',
                                        State = [], LastUpdateTime = 0\<rparr>),
      Marshal_event = (\<lambda>e. Inr ''{event}''),
      Marshal_state = (\<lambda>m. Inr ''{state}''),
      script_rewrite = (\<lambda>data state timestamp. Inr ''{session}'')\<rparr>"

definition example_service :: RedisSessionService where
  "example_service = \<lparr>svc_ttl = DefaultSessionTTL\<rparr>"

definition example_session :: redisSession where
  "example_session =
     \<lparr>sess_id = ''s1'', sess_appName = ''app'', sess_userID = ''u1'',
      sess_state = \<lparr>data = [], has_client = True, state_key = ''session:app:u1:s1'',
                    state_ttl = DefaultSessionTTL\<rparr>,
      sess_events_key = ''events:app:u1:s1'', sess_lastUpdateTime = 0\<rparr>"


definition example_event :: Event where
  "example_event = \<lparr>ev_ID = ''e1'', ev_Timestamp = 0, ev_body = ''hello''\<rparr>"

text \<open>An empty cache, and one holding the session one minute before its keys expire.\<close>

definition empty_cache :: rdb where
  "empty_cache = \<lparr>store = Map.empty, faults = []\<rparr>"


section \<open>Results: streaming\<close>

lemma stream_loop_A_no_cancel:
  assumes "\<forall>xs. yield xs"
  shows "stream_loop_A yield AddChunk chunks accum out
           = (foldl AddChunk accum chunks, out @ map partial_response (delta_texts_A chunks), False)"
  using assms
  by (induction chunks arbitrary: accum out) (auto simp: Let_def)

lemma stream_loop_B_ok:
  assumes "\<forall>xs. yield xs"
    and "accumulate_all Accumulate events message = Inr message'"
  shows "stream_loop_B yield Accumulate events message out
           = (message', out @ map partial_response (delta_texts_B events), False)"
  using assms
proof (induction events arbitrary: message out)
  case Nil
  then show ?case by (simp add: delta_texts_B_def)
next
  case (Cons event rest)
  from Cons.prems(2) obtain m1 where m1: "Accumulate message event = Inr m1"
    and rest: "accumulate_all Accumulate rest m1 = Inr message'"
    by (auto split: sum.splits)
  from Cons.IH [OF Cons.prems(1) rest] m1 Cons.prems(1) show ?case
    by (auto simp: delta_texts_B_def event_text_def Let_def
          split: event_variant.splits delta.splits)
qed

lemma stream_loop_B_rejected:
  assumes "\<forall>xs. yield xs"
    and "accumulate_all Accumulate events message = Inl err"
  shows "snd (stream_loop_B yield Accumulate events message out)
           = (out @ map partial_response
                      (delta_texts_B (accepted_events Accumulate events message))
                  @ [(None, Some err)], True)"
  using assms
proof (induction events arbitrary: message out)
  case Nil
  then show ?case by simp
next
  case (Cons event rest)
  show ?case
  proof (cases "Accumulate message event")
    case (Inl e)
    with Cons.prems show ?thesis
      by (simp add: delta_texts_B_def)
  next
    case (Inr m1)
    with Cons.prems(2) have rest: "accumulate_all Accumulate rest m1 = Inl err"
      by simp
    from Cons.IH [OF Cons.prems(1) rest] Inr Cons.prems(1) show ?thesis
      by (auto simp: delta_texts_B_def event_text_def Let_def
            split: event_variant.splits delta.splits)
  qed
qed

lemma is_partial_partial_response [simp]:
  "is_partial (partial_response text) \<longleftrightarrow> text \<noteq> []"
  by (simp add: is_partial_def partial_response_def)

lemma is_final_partial_response [simp]: "\<not> is_final (partial_response text)"
  by (simp add: is_final_def partial_response_def)

lemma is_error_partial_response [simp]: "\<not> is_error (partial_response text)"
  by (simp add: is_error_def partial_response_def)

lemma delta_texts_A_nonempty: "t \<in> set (delta_texts_A chunks) \<Longrightarrow> t \<noteq> []"
  by (induction chunks) (auto split: if_splits)

lemma delta_texts_B_nonempty: "t \<in> set (delta_texts_B events) \<Longrightarrow> t \<noteq> []"
  by (auto simp: delta_texts_B_def event_text_def split: event_variant.splits delta.splits if_splits)

lemma partials_A: "list_all is_partial (map partial_response (delta_texts_A chunks))"
  by (auto simp: list_all_iff dest: delta_texts_A_nonempty)

lemma partials_B: "list_all is_partial (map partial_response (delta_texts_B events))"
  by (auto simp: list_all_iff dest: delta_texts_B_nonempty)

lemma filter_partials [simp]:
  "filter is_final (map partial_response ts) = []"
  "filter is_error (map partial_response ts) = []"
  by (induction ts) simp_all

lemma generateStream_A_ok:
  assumes "\<forall>xs. yield xs" "built = Inr params" "stream_Err (NewStreaming params) = None"
  shows "generateStream_A json_Unmarshal AddChunk NewStreaming built yield
           = map partial_response (delta_texts_A (stream_events (NewStreaming params)))
             @ [(Some (buildStreamFinalResponse json_Unmarshal
                   (foldl AddChunk empty_ChatCompletion (stream_events (NewStreaming params)))),
                 None)]"
  using assms(2,3)
  by (simp add: generateStream_A_def Let_def stream_loop_A_no_cancel [OF assms(1)])

lemma generateStream_A_err:
  assumes "\<forall>xs. yield xs" "built = Inr params" "stream_Err (NewStreaming params) = Some err"
  shows "generateStream_A json_Unmarshal AddChunk NewStreaming built yield
           = map partial_response (delta_texts_A (stream_events (NewStreaming params)))
             @ [(None, Some err)]"
  using assms(2,3)
  by (simp add: generateStream_A_def Let_def stream_loop_A_no_cancel [OF assms(1)])

lemma generateStream_A_unbuilt:
  "generateStream_A json_Unmarshal AddChunk NewStreaming (Inl err) yield = [(None, Some err)]"
  by (simp add: generateStream_A_def)

lemma generateStream_B_ok:
  assumes "\<forall>xs. yield xs" "built = Inr params"
    and "accumulate_all Accumulate (stream_events (NewStreaming params)) empty_Message = Inr message"
    and "stream_Err (NewStreaming params) = None"
  shows "generateStream_B json_Marshal json_Unmarshal Accumulate NewStreaming built yield
           = map partial_response (delta_texts_B (stream_events (NewStreaming params)))
             @ [(Some ((convertResponse_B json_Marshal json_Unmarshal message)
                   \<lparr>Partial := False, TurnComplete := True\<rparr>), None)]"
  using assms(2,4)
  by (simp add: generateStream_B_def Let_def stream_loop_B_ok [OF assms(1,3)])

lemma generateStream_B_err:
  assumes "\<forall>xs. yield xs" "built = Inr params"
    and "accumulate_all Accumulate (stream_events (NewStreaming params)) empty_Message = Inr message"
    and "stream_Err (NewStreaming params) = Some err"
  shows "generateStream_B json_Marshal json_Unmarshal Accumulate NewStreaming built yield
           = map partial_response (delta_texts_B (stream_events (NewStreaming params)))
             @ [(None, Some err)]"
  using assms(2,4)
  by (simp add: generateStream_B_def Let_def stream_loop_B_ok [OF assms(1,3)])

lemma generateStream_B_rejected:
  assumes "\<forall>xs. yield xs" "built = Inr params"
    and "accumulate_all Accumulate (stream_events (NewStreaming params)) empty_Message = Inl err"
  shows "generateStream_B json_Marshal json_Unmarshal Accumulate NewStreaming built yield
           = map partial_response
               (delta_texts_B (accepted_events Accumulate (stream_events (NewStreaming params))
                  empty_Message))
             @ [(None, Some err)]"
  using assms(2) stream_loop_B_rejected [OF assms(1,3), of "[]"]
  by (simp add: generateStream_B_def Let_def split_def)

lemma generateStream_B_unbuilt:
  "generateStream_B json_Marshal json_Unmarshal Accumulate NewStreaming (Inl err) yield
     = [(None, Some err)]"
  by (simp add: generateStream_B_def)

lemma shape_final:
  assumes "items = map partial_response ts @ [(Some r, None)]" "\<not> Partial r" "TurnComplete r"
    and "\<forall>t \<in> set ts. t \<noteq> []"
  shows "items \<noteq> [] \<and> list_all is_partial (butlast items)
         \<and> filter is_final items = [last items] \<and> filter is_error items = []"
  using assms by (auto simp: list_all_iff is_final_def is_error_def)

lemma shape_error:
  assumes "items = map partial_response ts @ [(None, Some err)]"
    and "\<forall>t \<in> set ts. t \<noteq> []"
  shows "items \<noteq> [] \<and> list_all is_partial (butlast items)
         \<and> filter is_error items = [last items] \<and> filter is_final items = []"
  using assms by (auto simp: list_all_iff is_final_def is_error_def)

text \<open>
  Claim C1, as amended. A streaming call whose consumer never stops yields at least
  one item, and every item before the last is a partial response (partial set,
  turn-complete unset, one non-empty text part). For both protocols, when the request
  was built, the upstream stream did not fail and (Protocol-B) the accumulator took
  every event, the partial responses carry the non-empty text deltas in order and the
  last item is the one final response, built from the accumulated message, with partial
  unset and turn-complete set. When building the request failed, the only item is
  \<open>(nil, error)\<close>; when the stream failed or the accumulator rejected an event, the
  partial responses yielded so far are followed by exactly one \<open>(nil, error)\<close> and
  there is no final response.
\<close>

theorem generateStream_spec:
  assumes no_cancel: "\<forall>xs. yield xs"
  shows "(let items = generateStream_A json_Unmarshal AddChunk NewStreaming_A built_A yield in
          items \<noteq> [] \<and> list_all is_partial (butlast items)
          \<and> (case built_A of
                Inl err \<Rightarrow> items = [(None, Some err)]
              | Inr params \<Rightarrow>
                  (case stream_Err (NewStreaming_A params) of
                     Some err \<Rightarrow>
                       items = map partial_response
                                 (delta_texts_A (stream_events (NewStreaming_A params)))
                               @ [(None, Some err)]
                       \<and> filter is_error items = [last items] \<and> filter is_final items = []
                   | None \<Rightarrow>
                       items = map partial_response
                                 (delta_texts_A (stream_events (NewStreaming_A params)))
                               @ [(Some (buildStreamFinalResponse json_Unmarshal
                                     (foldl AddChunk empty_ChatCompletion
                                        (stream_events (NewStreaming_A params)))), None)]
                       \<and> filter is_final items = [last items] \<and> filter is_error items = [])))
       \<and> (let items = generateStream_B json_Marshal json_Unmarshal Accumulate NewStreaming_B
                         built_B yield in
          items \<noteq> [] \<and> list_all is_partial (butlast items)
          \<and> (case built_B of
                Inl err \<Rightarrow> items = [(None, Some err)]
              | Inr params \<Rightarrow>
                  (case accumulate_all Accumulate (stream_events (NewStreaming_B params))
                          empty_Message of
                     Inl err \<Rightarrow>
                       items = map partial_response
                                 (delta_texts_B (accepted_events Accumulate
                                    (stream_events (NewStreaming_B params)) empty_Message))
                               @ [(None, Some err)]
                       \<and> filter is_error items = [last items] \<and> filter is_final items = []
                   | Inr message \<Rightarrow>
                       (case stream_Err (NewStreaming_B params) of
                          Some err \<Rightarrow>
                            items = map partial_response
                                      (delta_texts_B (stream_events (NewStreaming_B params)))
                                    @ [(None, Some err)]
                            \<and> filter is_error items = [last items] \<and> filter is_final items = []
                        | None \<Rightarrow>
                            items = map partial_response
                                      (delta_texts_B (stream_events (NewStreaming_B params)))
                                    @ [(Some ((convertResponse_B json_Marshal json_Unmarshal message)
                                          \<lparr>Partial := False, TurnComplete := True\<rparr>), None)]
                            \<and> filter is_final items = [last items]
                            \<and> filter is_error items = []))))"
proof -
  note nonempty = delta_texts_A_nonempty delta_texts_B_nonempty
  let ?A = "generateStream_A json_Unmarshal AddChunk NewStreaming_A built_A yield"
  let ?B = "generateStream_B json_Marshal json_Unmarshal Accumulate NewStreaming_B built_B yield"
  have A: "?A \<noteq> [] \<and> list_all is_partial (butlast ?A)
          \<and> (case built_A of
                Inl err \<Rightarrow> ?A = [(None, Some err)]
              | Inr params \<Rightarrow>
                  (case stream_Err (NewStreaming_A params) of
                     Some err \<Rightarrow>
                       ?A = map partial_response
                                 (delta_texts_A (stream_events (NewStreaming_A params)))
                               @ [(None, Some err)]
                       \<and> filter is_error ?A = [last ?A] \<and> filter is_final ?A = []
                   | None \<Rightarrow>
                       ?A = map partial_response
                                 (delta_texts_A (stream_events (NewStreaming_A params)))
                               @ [(Some (buildStreamFinalResponse json_Unmarshal
                                     (foldl AddChunk empty_ChatCompletion
                                        (stream_events (NewStreaming_A params)))), None)]
                       \<and> filter is_final ?A = [last ?A] \<and> filter is_error ?A = []))"
  proof (cases built_A)
    case (Inl err)
    then show ?thesis
      by (simp add: generateStream_A_unbuilt)
  next
    case (Inr params)
    show ?thesis
    proof (cases "stream_Err (NewStreaming_A params)")
      case None
      from generateStream_A_ok [where NewStreaming = NewStreaming_A, OF no_cancel Inr None]
      have eq: "?A = map partial_response (delta_texts_A (stream_events (NewStreaming_A params)))
             @ [(Some (buildStreamFinalResponse json_Unmarshal
                   (foldl AddChunk empty_ChatCompletion (stream_events (NewStreaming_A params)))),
                 None)]" .
      have "\<not> Partial (buildStreamFinalResponse json_Unmarshal acc)"
        and "TurnComplete (buildStreamFinalResponse json_Unmarshal acc)" for acc
        by (simp_all add: buildStreamFinalResponse_def)
      from shape_final [OF eq this] nonempty(1)
      have "?A \<noteq> [] \<and> list_all is_partial (butlast ?A)
              \<and> filter is_final ?A = [last ?A] \<and> filter is_error ?A = []"
        by blast
      with eq show ?thesis
        unfolding Inr sum.case None option.case by blast
    next
      case (Some err)
      from generateStream_A_err [where NewStreaming = NewStreaming_A, OF no_cancel Inr Some]
      have eq: "?A = map partial_response (delta_texts_A (stream_events (NewStreaming_A params)))
             @ [(None, Some err)]" .
      from shape_error [OF eq] nonempty(1)
      have "?A \<noteq> [] \<and> list_all is_partial (butlast ?A)
              \<and> filter is_error ?A = [last ?A] \<and> filter is_final ?A = []"
        by blast
      with eq show ?thesis
        unfolding Inr sum.case Some option.case by blast
    qed
  qed
  have B: "?B \<noteq> [] \<and> list_all is_partial (butlast ?B)
          \<and> (case built_B of
                Inl err \<Rightarrow> ?B = [(None, Some err)]
              | Inr params \<Rightarrow>
                  (case accumulate_all Accumulate (stream_events (NewStreaming_B params))
                          empty_Message of
                     Inl err \<Rightarrow>
                       ?B = map partial_response
                                 (delta_texts_B (accepted_events Accumulate
                                    (stream_events (NewStreaming_B params)) empty_Message))
                               @ [(None, Some err)]
                       \<and> filter is_error ?B = [last ?B] \<and> filter is_final ?B = []
                   | Inr message \<Rightarrow>
                       (case stream_Err (NewStreaming_B params) of
                          Some err \<Rightarrow>
                            ?B = map partial_response
                                      (delta_texts_B (stream_events (NewStreaming_B params)))
                                    @ [(None, Some err)]
                            \<and> filter is_error ?B = [last ?B] \<and> filter is_final ?B = []
                        | None \<Rightarrow>
                            ?B = map partial_response
                                      (delta_texts_B (stream_events (NewStreaming_B params)))
                                    @ [(Some ((convertResponse_B json_Marshal json_Unmarshal message)
                                          \<lparr>Partial := False, TurnComplete := True\<rparr>), None)]
                            \<and> filter is_final ?B = [last ?B]
                            \<and> filter is_error ?B = [])))"
  proof (cases built_B)
    case (Inl err)
    then show ?thesis
      by (simp add: generateStream_B_unbuilt)
  next
    case (Inr params)
    show ?thesis
    proof (cases "accumulate_all Accumulate (stream_events (NewStreaming_B params)) empty_Message")
      case rejected: (Inl err)
      from generateStream_B_rejected [where NewStreaming = NewStreaming_B and Accumulate = Accumulate, OF no_cancel Inr rejected]
      have eq: "?B = map partial_response
               (delta_texts_B (accepted_events Accumulate (stream_events (NewStreaming_B params))
                  empty_Message))
             @ [(None, Some err)]" .
      from shape_error [OF eq] nonempty(2)
      have "?B \<noteq> [] \<and> list_all is_partial (butlast ?B)
              \<and> filter is_error ?B = [last ?B] \<and> filter is_final ?B = []"
        by blast
      with eq show ?thesis
        unfolding Inr sum.case rejected by blast
    next
      case taken: (Inr message)
      show ?thesis
      proof (cases "stream_Err (NewStreaming_B params)")
        case None
        from generateStream_B_ok [where NewStreaming = NewStreaming_B and Accumulate = Accumulate, OF no_cancel Inr taken None]
        have eq: "?B = map partial_response (delta_texts_B (stream_events (NewStreaming_B params)))
             @ [(Some ((convertResponse_B json_Marshal json_Unmarshal message)
                   \<lparr>Partial := False, TurnComplete := True\<rparr>), None)]" .
        have "\<not> Partial (r\<lparr>Partial := False, TurnComplete := True\<rparr>)"
          and "TurnComplete (r\<lparr>Partial := False, TurnComplete := True\<rparr>)" for r :: LLMResponse
          by simp_all
        from shape_final [OF eq this] nonempty(2)
        have "?B \<noteq> [] \<and> list_all is_partial (butlast ?B)
                \<and> filter is_final ?B = [last ?B] \<and> filter is_error ?B = []"
          by blast
        with eq show ?thesis
          unfolding Inr sum.case taken None option.case by blast
      next
        case (Some err)
        from generateStream_B_err [where NewStreaming = NewStreaming_B and Accumulate = Accumulate, OF no_cancel Inr taken Some]
        have eq: "?B = map partial_response (delta_texts_B (stream_events (NewStreaming_B params)))
             @ [(None, Some err)]" .
        from shape_error [OF eq] nonempty(2)
        have "?B \<noteq> [] \<and> list_all is_partial (butlast ?B)
                \<and> filter is_error ?B = [last ?B] \<and> filter is_final ?B = []"
          by blast
        with eq show ?thesis
          unfolding Inr sum.case taken Some option.case by blast
      qed
    qed
  qed
  from A B show ?thesis
    by (simp add: Let_def)
qed

theorem generateStream_spec_witness:
  "(\<forall>xs. never_stops xs)
   \<and> generateStream_A rejecting_Unmarshal appending_AddChunk hello_upstream_A (Inr ()) never_stops
       = [partial_response ''He'', partial_response ''llo'', partial_response ''!'',
          (Some \<lparr>resp_Content = \<lparr>genai_Role = RoleModel, Parts = [Text ''Hello!'']\<rparr>,
                  resp_UsageMetadata = None,
                  resp_FinishReason = FinishReasonStop,
                  Partial = False, TurnComplete = True\<rparr>, None)]
   \<and> generateStream_B failing_Marshal rejecting_Unmarshal appending_Accumulate hello_upstream_B
         (Inr ()) never_stops
       = [partial_response ''He'', partial_response ''llo'', partial_response ''!'',
          (Some \<lparr>resp_Content = \<lparr>genai_Role = RoleModel, Parts = [Text ''Hello!'']\<rparr>,
                  resp_UsageMetadata = None,
                  resp_FinishReason = FinishReasonUnspecified,
                  Partial = False, TurnComplete = True\<rparr>, None)]"
proof -
  have nc: "\<forall>xs. never_stops xs"
    by (simp add: never_stops_def)
  have acc: "accumulate_all appending_Accumulate (stream_events (hello_upstream_B ())) empty_Message
               = Inr \<lparr>Content_B = [TextBlock ''Hello!''],
                      Usage_B = \<lparr>InputTokens = 0, OutputTokens = 0\<rparr>, StopReason = []\<rparr>"
    by (simp add: hello_upstream_B_def text_event_def appending_Accumulate_def empty_Message_def)
  have fin: "buildStreamFinalResponse rejecting_Unmarshal
               (foldl appending_AddChunk empty_ChatCompletion (stream_events (hello_upstream_A ())))
             = \<lparr>resp_Content = \<lparr>genai_Role = RoleModel, Parts = [Text ''Hello!'']\<rparr>,
                  resp_UsageMetadata = None,
                  resp_FinishReason = FinishReasonStop,
                  Partial = False, TurnComplete = True\<rparr>"
    by (simp add: hello_upstream_A_def text_chunk_def appending_AddChunk_def
          empty_ChatCompletion_def buildStreamFinalResponse_def message_parts_def
          convertUsageMetadata_def convertFinishReason_def)
  have ta: "delta_texts_A (stream_events (hello_upstream_A ())) = [''He'', ''llo'', ''!'']"
    by (simp add: hello_upstream_A_def text_chunk_def)
  have tb: "delta_texts_B (stream_events (hello_upstream_B ())) = [''He'', ''llo'', ''!'']"
    by (simp add: hello_upstream_B_def text_event_def delta_texts_B_def event_text_def)
  have ea: "stream_Err (hello_upstream_A ()) = None" and eb: "stream_Err (hello_upstream_B ()) = None"
    by (simp_all add: hello_upstream_A_def hello_upstream_B_def)
  from generateStream_spec [OF nc, where json_Unmarshal = rejecting_Unmarshal
      and AddChunk = appending_AddChunk and NewStreaming_A = hello_upstream_A
      and built_A = "Inr ()" and json_Marshal = failing_Marshal
      and Accumulate = appending_Accumulate and NewStreaming_B = hello_upstream_B
      and built_B = "Inr ()"]
  have "generateStream_A rejecting_Unmarshal appending_AddChunk hello_upstream_A (Inr ()) never_stops
       = [partial_response ''He'', partial_response ''llo'', partial_response ''!'',
          (Some \<lparr>resp_Content = \<lparr>genai_Role = RoleModel, Parts = [Text ''Hello!'']\<rparr>,
                  resp_UsageMetadata = None,
                  resp_FinishReason = FinishReasonStop,
                  Partial = False, TurnComplete = True\<rparr>, None)]
   \<and> generateStream_B failing_Marshal rejecting_Unmarshal appending_Accumulate hello_upstream_B
         (Inr ()) never_stops
       = [partial_response ''He'', partial_response ''llo'', partial_response ''!'',
          (Some \<lparr>resp_Content = \<lparr>genai_Role = RoleModel, Parts = [Text ''Hello!'']\<rparr>,
                  resp_UsageMetadata = None,
                  resp_FinishReason = FinishReasonUnspecified,
                  Partial = False, TurnComplete = True\<rparr>, None)]"
    by (simp add: Let_def acc ea eb fin ta tb convertResponse_B_def convertStopReason_def)
  with nc show ?thesis
    by blast
qed

lemma nan_request_unbuilt:
  "buildChatCompletionParameters number_Marshal zero_sum256 empty_base64 ''gpt-4o'' fresh_Model
     nan_request
   = (Inl (Wrap ''failed to marshal function response'' (Error ''json: unsupported value: NaN'')),
      fresh_Model)"
  by (simp add: buildChatCompletionParameters_def nan_request_def convertContentToMessages_def
        number_Marshal_def)

text \<open>
  Claim C1 as it was stated promises a final response for every call that ends without
  an upstream error and without cancellation. A call whose request cannot be built never
  reaches the upstream, is not cancelled, and yields only \<open>(nil, error)\<close>: here the
  request carries a tool result with a NaN in it, which \<^verbatim>\<open>json.Marshal\<close> refuses.
\<close>

theorem generateStream_unbuilt_counterexample:
  "fst (buildChatCompletionParameters number_Marshal zero_sum256 empty_base64 ''gpt-4o''
          fresh_Model nan_request)
     = Inl (Wrap ''failed to marshal function response'' (Error ''json: unsupported value: NaN''))
   \<and> generateStream_A rejecting_Unmarshal appending_AddChunk silent_upstream
         (fst (buildChatCompletionParameters number_Marshal zero_sum256 empty_base64 ''gpt-4o''
                 fresh_Model nan_request))
         never_stops
       = [(None, Some (Wrap ''failed to marshal function response''
                         (Error ''json: unsupported value: NaN'')))]
   \<and> never_stops [(None, Some (Wrap ''failed to marshal function response''
                       (Error ''json: unsupported value: NaN'')))]
   \<and> filter is_final
        (generateStream_A rejecting_Unmarshal appending_AddChunk silent_upstream
           (fst (buildChatCompletionParameters number_Marshal zero_sum256 empty_base64 ''gpt-4o''
                   fresh_Model nan_request))
           never_stops) = []"
  by (simp add: nan_request_unbuilt generateStream_A_def never_stops_def is_final_def)

section \<open>Results: memory search\<close>

text \<open>What \<^verbatim>\<open>Search\<close> returns when no stage fails, stage by stage.\<close>

lemma Search_text_stage:
  assumes "embeddingModel = None" "Query req \<noteq> []" "searchByText req = Inr rows" "rows \<noteq> []"
  shows "Search embeddingModel searchByVector searchByText searchRecent req = Inr rows"
  using assms by (simp add: Search_def)

lemma Search_empty_query:
  assumes "Query req = []"
  shows "Search embeddingModel searchByVector searchByText searchRecent req = searchRecent req"
  using assms by (simp add: Search_def split: option.splits)

lemma Search_falls_through_to_recent:
  assumes "embeddingModel = None" "Query req \<noteq> []" "searchByText req = Inr []"
  shows "Search embeddingModel searchByVector searchByText searchRecent req = searchRecent req"
  using assms by (simp add: Search_def)

text \<open>
  Claim C2 says that the recency stage applies only when the query is empty, so that a
  non-empty query with no vector and no full-text match yields zero results. The third
  stage of \<^verbatim>\<open>Search\<close> tests \<^verbatim>\<open>len(memories) == 0\<close> alone: with no embedding model
  configured, the query \<^verbatim>\<open>"quantum"\<close> and no full-text match, the most recent entries
  are returned.
\<close>

theorem Search_nonempty_query_returns_recent:
  "Query \<lparr>AppName = ''app'', UserID = ''u1'', Query = ''quantum''\<rparr> \<noteq> []
   \<and> no_text_rows \<lparr>AppName = ''app'', UserID = ''u1'', Query = ''quantum''\<rparr> = Inr []
   \<and> Search None no_vector_rows no_text_rows recent_rows
        \<lparr>AppName = ''app'', UserID = ''u1'', Query = ''quantum''\<rparr>
      = Inr [kubernetes_entry]"
  by (simp add: Search_def no_text_rows_def recent_rows_def)

section \<open>Results: message history repair\<close>

lemma repair_loop_rec:
  "i \<le> length messages \<Longrightarrow>
     repair_loop messages i result = result @ repair_rec (drop i messages)"
proof (induction messages i result rule: repair_loop.induct)
  case (1 messages i result)
  show ?case
  proof (cases "i < length messages")
    case False
    with "1.prems" show ?thesis
      by (subst repair_loop.simps) simp
  next
    case True
    then have d: "drop i messages = messages ! i # drop (Suc i) messages"
      by (simp add: Cons_nth_drop_Suc)
    from True have le: "Suc i \<le> length messages"
      by simp
    let ?msg = "messages ! i"
    let ?rest = "drop (Suc i) messages"
    have step: "repair_loop messages i result
                  = repair_loop messages (Suc i) (result @ repair_head ?msg ?rest)"
    proof (cases "Suc i < length messages")
      case True
      then have "?rest = messages ! Suc i # drop (Suc (Suc i)) messages"
        by (simp add: Cons_nth_drop_Suc)
      with True \<open>i < length messages\<close> show ?thesis
        by (subst repair_loop.simps) (simp add: repair_head_def Let_def)
    next
      case False
      then have "?rest = []"
        by simp
      with False \<open>i < length messages\<close> show ?thesis
        by (subst repair_loop.simps) (simp add: repair_head_def Let_def)
    qed
    have "repair_loop messages (Suc i) (result @ repair_head ?msg ?rest)
            = (result @ repair_head ?msg ?rest) @ repair_rec ?rest"
    proof (cases "Role ?msg = MessageParamRoleAssistant \<and> 0 < length (extractToolUseIDs ?msg)")
      case False
      then have "repair_head ?msg ?rest = [?msg]"
        by (auto simp: repair_head_def)
      with "1.IH"(3) [OF True refl False] le show ?thesis
        by simp
    next
      case asst: True
      show ?thesis
      proof (cases "i + 1 < length messages \<and> Role (messages ! (i + 1)) = MessageParamRoleUser")
        case True
        let ?f = "filterToolUse ?msg
                    (Some (matchedIDs_of (extractToolResultIDs (messages ! (i + 1)))))"
        from True have "?rest = messages ! Suc i # drop (Suc (Suc i)) messages"
          by (simp add: Cons_nth_drop_Suc)
        with True asst have "repair_head ?msg ?rest = (if hasContent ?f then [?f] else [])"
          by (simp add: repair_head_def Let_def)
        with "1.IH"(1) [OF \<open>i < length messages\<close> refl asst True refl refl refl] le
        show ?thesis
          by (auto split: if_splits)
      next
        case False
        have "repair_head ?msg ?rest
                = (if hasContent (filterToolUse ?msg None) then [filterToolUse ?msg None] else [])"
        proof (cases "Suc i < length messages")
          case True
          then have "?rest = messages ! Suc i # drop (Suc (Suc i)) messages"
            by (simp add: Cons_nth_drop_Suc)
          with True False asst show ?thesis
            by (simp add: repair_head_def Let_def)
        next
          case False
          then have "?rest = []"
            by simp
          with asst show ?thesis
            by (simp add: repair_head_def Let_def)
        qed
        with "1.IH"(2) [OF \<open>i < length messages\<close> refl asst False refl] le
        show ?thesis
          by (auto split: if_splits)
      qed
    qed
    with step d show ?thesis
      by simp
  qed
qed

lemma repairMessageHistory_rec: "repairMessageHistory messages = repair_rec messages"
  by (simp add: repairMessageHistory_def repair_loop_rec)

lemma matchedIDs_of_aux:
  "(foldl (\<lambda>matchedIDs i. matchedIDs(i \<mapsto> True)) m ids) k
     = (if k \<in> set ids then Some True else m k)"
  by (induction ids arbitrary: m) auto

lemma matchedIDs_of_lookup:
  "matchedIDs_of ids k = (if k \<in> set ids then Some True else None)"
  by (simp add: matchedIDs_of_def matchedIDs_of_aux)

lemma is_tool_use_simps [simp]:
  "is_tool_use (OfToolUse i n inp) = True"
  "is_tool_use (OfText t) = False"
  "is_tool_use (OfImage mt d) = False"
  "is_tool_use (OfToolResult i c e) = False"
  "is_tool_use (OfOtherBlock k) = False"
  by (simp_all add: is_tool_use_def)

lemma tool_use_id_simp [simp]: "tool_use_id (OfToolUse i n inp) = i"
  by (simp add: tool_use_id_def)

lemma filterToolUse_blocks_filter:
  "filterToolUse_blocks bs allowedIDs
     = filter (\<lambda>b. is_tool_use b \<longrightarrow> allowed_id allowedIDs (tool_use_id b)) bs"
  by (induction bs allowedIDs rule: filterToolUse_blocks.induct) simp_all

lemma extractToolUseIDs_blocks_map:
  "extractToolUseIDs_blocks bs = map tool_use_id (filter is_tool_use bs)"
  by (induction bs rule: extractToolUseIDs_blocks.induct) simp_all

lemma allowed_id_None [simp]: "allowed_id None i = False"
  by (simp add: allowed_id_def)

lemma allowed_id_matched [simp]:
  "allowed_id (Some (matchedIDs_of ids)) i \<longleftrightarrow> i \<in> set ids"
  by (simp add: allowed_id_def matchedIDs_of_lookup)

lemma filterToolUse_keeps_others:
  "filter (\<lambda>b. \<not> is_tool_use b) (filterToolUse_blocks bs allowedIDs)
     = filter (\<lambda>b. \<not> is_tool_use b) bs"
  by (simp add: filterToolUse_blocks_filter) (rule filter_cong, auto)

lemma filterToolUse_blocks_empty:
  "filterToolUse_blocks bs allowedIDs = [] \<Longrightarrow> filter (\<lambda>b. \<not> is_tool_use b) bs = []"
  using filterToolUse_keeps_others [of bs allowedIDs] by simp

lemma Role_filterToolUse [simp]: "Role (filterToolUse msg allowedIDs) = Role msg"
  by (simp add: filterToolUse_def)

lemma filterToolUse_None_ids [simp]:
  "extractToolUseIDs (filterToolUse msg None) = []"
  by (simp add: extractToolUseIDs_def filterToolUse_def extractToolUseIDs_blocks_map
        filterToolUse_blocks_filter)

lemma filterToolUse_Some_ids:
  "set (extractToolUseIDs (filterToolUse msg (Some (matchedIDs_of ids)))) \<subseteq> set ids"
  by (auto simp: extractToolUseIDs_def filterToolUse_def extractToolUseIDs_blocks_map
        filterToolUse_blocks_filter)

lemma user_not_assistant [simp]:
  "MessageParamRoleUser \<noteq> MessageParamRoleAssistant"
  by (simp add: MessageParamRoleUser_def MessageParamRoleAssistant_def)

lemma repair_rec_user:
  "Role u = MessageParamRoleUser \<Longrightarrow> repair_rec (u # rest) = u # repair_rec rest"
  using user_not_assistant by (simp add: repair_head_def)

lemma paired_repair_rec: "paired (repair_rec messages)"
proof (induction messages)
  case Nil
  show ?case by simp
next
  case (Cons msg rest)
  show ?case
  proof (cases "Role msg = MessageParamRoleAssistant \<and> extractToolUseIDs msg \<noteq> []")
    case False
    then have "repair_rec (msg # rest) = msg # repair_rec rest"
      by (auto simp: repair_head_def)
    with False Cons.IH show ?thesis
      by auto
  next
    case True
    show ?thesis
    proof (cases rest)
      case Nil
      with True show ?thesis
        by (simp add: repair_head_def Let_def)
    next
      case (Cons nxt rest')
      show ?thesis
      proof (cases "Role nxt = MessageParamRoleUser")
        case False
        with True Cons Cons.IH show ?thesis
          by (simp add: repair_head_def Let_def)
      next
        case user: True
        have "repair_rec rest = nxt # repair_rec rest'"
          unfolding Cons by (rule repair_rec_user [OF user])
        with True Cons user Cons.IH filterToolUse_Some_ids [of msg "extractToolResultIDs nxt"]
        show ?thesis
          by (auto simp: repair_head_def Let_def)
      qed
    qed
  qed
qed

lemma paired_nth:
  "paired ms \<Longrightarrow> i < length ms \<Longrightarrow> Role (ms ! i) = MessageParamRoleAssistant \<Longrightarrow>
     k \<in> set (extractToolUseIDs (ms ! i)) \<Longrightarrow>
     Suc i < length ms \<and> Role (ms ! Suc i) = MessageParamRoleUser
     \<and> k \<in> set (extractToolResultIDs (ms ! Suc i))"
proof (induction ms arbitrary: i)
  case Nil
  then show ?case by simp
next
  case (Cons m ms)
  show ?case
  proof (cases i)
    case 0
    with Cons.prems show ?thesis
      by (cases ms) auto
  next
    case (Suc j)
    with Cons.prems Cons.IH [of j] show ?thesis
      by simp
  qed
qed

lemma others_repair_rec:
  "concat (map (\<lambda>m. filter (\<lambda>b. \<not> is_tool_use b) (Content m)) (repair_rec messages))
     = concat (map (\<lambda>m. filter (\<lambda>b. \<not> is_tool_use b) (Content m)) messages)"
proof (induction messages)
  case Nil
  show ?case by simp
next
  case (Cons msg rest)
  have "concat (map (\<lambda>m. filter (\<lambda>b. \<not> is_tool_use b) (Content m)) (repair_head msg rest))
          = filter (\<lambda>b. \<not> is_tool_use b) (Content msg)"
    by (cases rest)
       (auto simp: repair_head_def Let_def hasContent_def filterToolUse_def
          filterToolUse_keeps_others dest: filterToolUse_blocks_empty)
  with Cons.IH show ?case
    by simp
qed

lemma repair_head_unmatched:
  assumes "Role msg = MessageParamRoleAssistant" "extractToolUseIDs msg \<noteq> []"
    and "rest = [] \<or> Role (hd rest) \<noteq> MessageParamRoleUser"
  shows "repair_head msg rest
           = (let kept = filter (\<lambda>b. \<not> is_tool_use b) (Content msg)
              in if kept = [] then [] else [\<lparr>Role = Role msg, Content = kept\<rparr>])"
proof -
  have "filterToolUse msg None
          = \<lparr>Role = Role msg, Content = filter (\<lambda>b. \<not> is_tool_use b) (Content msg)\<rparr>"
    by (simp add: filterToolUse_def filterToolUse_blocks_filter)
  with assms show ?thesis
    by (cases rest) (auto simp: repair_head_def Let_def hasContent_def)
qed

lemma repair_head_matched:
  assumes "Role msg = MessageParamRoleAssistant" "extractToolUseIDs msg \<noteq> []"
    and "Role nxt = MessageParamRoleUser"
  shows "repair_head msg (nxt # rest)
           = (let kept = filter (\<lambda>b. is_tool_use b \<longrightarrow>
                             tool_use_id b \<in> set (extractToolResultIDs nxt)) (Content msg)
              in if kept = [] then [] else [\<lparr>Role = Role msg, Content = kept\<rparr>])"
proof -
  have "filterToolUse msg (Some (matchedIDs_of (extractToolResultIDs nxt)))
          = \<lparr>Role = Role msg,
             Content = filter (\<lambda>b. is_tool_use b \<longrightarrow>
                         tool_use_id b \<in> set (extractToolResultIDs nxt)) (Content msg)\<rparr>"
    by (simp add: filterToolUse_def filterToolUse_blocks_filter)
  with assms show ?thesis
    by (auto simp: repair_head_def Let_def hasContent_def)
qed

lemma repair_head_other:
  "\<not> (Role msg = MessageParamRoleAssistant \<and> extractToolUseIDs msg \<noteq> []) \<Longrightarrow>
     repair_head msg rest = [msg]"
  by (auto simp: repair_head_def)

text \<open>
  Claim C3. After \<^verbatim>\<open>repairMessageHistory\<close>: (1) every tool_use block left in an
  assistant message has a tool_result with the same ID in the message right after it,
  which is a user message; (2) an assistant message carrying tool_use blocks whose next
  message is missing or not a user message keeps exactly its other blocks, and is
  dropped when none is left; (3) when the next message is a user message it keeps its
  other blocks and the tool_use blocks whose ID that message answers, and is dropped
  when none is left; (4) every other message is kept as it is; (5) the blocks that are
  not tool_use blocks, text and image blocks among them, are the same before and after,
  in the same order.
\<close>

theorem repairMessageHistory_spec:
  "(\<forall>i k. i < length (repairMessageHistory messages)
        \<and> Role (repairMessageHistory messages ! i) = MessageParamRoleAssistant
        \<and> k \<in> set (extractToolUseIDs (repairMessageHistory messages ! i))
      \<longrightarrow> Suc i < length (repairMessageHistory messages)
        \<and> Role (repairMessageHistory messages ! Suc i) = MessageParamRoleUser
        \<and> k \<in> set (extractToolResultIDs (repairMessageHistory messages ! Suc i)))
   \<and> (Role msg = MessageParamRoleAssistant \<and> extractToolUseIDs msg \<noteq> []
        \<and> (rest = [] \<or> Role (hd rest) \<noteq> MessageParamRoleUser)
      \<longrightarrow> repairMessageHistory (msg # rest)
          = (let kept = filter (\<lambda>b. \<not> is_tool_use b) (Content msg)
             in if kept = [] then [] else [\<lparr>Role = Role msg, Content = kept\<rparr>])
            @ repairMessageHistory rest)
   \<and> (Role msg = MessageParamRoleAssistant \<and> extractToolUseIDs msg \<noteq> []
        \<and> Role nxt = MessageParamRoleUser
      \<longrightarrow> repairMessageHistory (msg # nxt # rest)
          = (let kept = filter (\<lambda>b. is_tool_use b \<longrightarrow>
                            tool_use_id b \<in> set (extractToolResultIDs nxt)) (Content msg)
             in if kept = [] then [] else [\<lparr>Role = Role msg, Content = kept\<rparr>])
            @ nxt # repairMessageHistory rest)
   \<and> (\<not> (Role msg = MessageParamRoleAssistant \<and> extractToolUseIDs msg \<noteq> [])
      \<longrightarrow> repairMessageHistory (msg # rest) = msg # repairMessageHistory rest)
   \<and> concat (map (\<lambda>m. filter (\<lambda>b. \<not> is_tool_use b) (Content m)) (repairMessageHistory messages))
       = concat (map (\<lambda>m. filter (\<lambda>b. \<not> is_tool_use b) (Content m)) messages)"
proof (intro conjI allI impI)
  fix i k
  assume "i < length (repairMessageHistory messages)
        \<and> Role (repairMessageHistory messages ! i) = MessageParamRoleAssistant
        \<and> k \<in> set (extractToolUseIDs (repairMessageHistory messages ! i))"
  with paired_nth [OF paired_repair_rec, of i messages k]
  have *: "Suc i < length (repairMessageHistory messages)
        \<and> Role (repairMessageHistory messages ! Suc i) = MessageParamRoleUser
        \<and> k \<in> set (extractToolResultIDs (repairMessageHistory messages ! Suc i))"
    by (simp add: repairMessageHistory_rec)
  from * show "Suc i < length (repairMessageHistory messages)" by simp
  from * show "Role (repairMessageHistory messages ! Suc i) = MessageParamRoleUser" by simp
  from * show "k \<in> set (extractToolResultIDs (repairMessageHistory messages ! Suc i))" by simp
next
  assume "Role msg = MessageParamRoleAssistant \<and> extractToolUseIDs msg \<noteq> []
        \<and> (rest = [] \<or> Role (hd rest) \<noteq> MessageParamRoleUser)"
  then show "repairMessageHistory (msg # rest)
          = (let kept = filter (\<lambda>b. \<not> is_tool_use b) (Content msg)
             in if kept = [] then [] else [\<lparr>Role = Role msg, Content = kept\<rparr>])
            @ repairMessageHistory rest"
    using repair_head_unmatched [of msg rest] by (simp add: repairMessageHistory_rec)
next
  assume a: "Role msg = MessageParamRoleAssistant \<and> extractToolUseIDs msg \<noteq> []
        \<and> Role nxt = MessageParamRoleUser"
  then have "repair_rec (nxt # rest) = nxt # repair_rec rest"
    by (intro repair_rec_user) simp
  with a show "repairMessageHistory (msg # nxt # rest)
          = (let kept = filter (\<lambda>b. is_tool_use b \<longrightarrow>
                            tool_use_id b \<in> set (extractToolResultIDs nxt)) (Content msg)
             in if kept = [] then [] else [\<lparr>Role = Role msg, Content = kept\<rparr>])
            @ nxt # repairMessageHistory rest"
    using repair_head_matched [of msg nxt rest] by (simp add: repairMessageHistory_rec)
next
  assume "\<not> (Role msg = MessageParamRoleAssistant \<and> extractToolUseIDs msg \<noteq> [])"
  then show "repairMessageHistory (msg # rest) = msg # repairMessageHistory rest"
    using repair_head_other [of msg rest] by (simp add: repairMessageHistory_rec)
next
  show "concat (map (\<lambda>m. filter (\<lambda>b. \<not> is_tool_use b) (Content m)) (repairMessageHistory messages))
       = concat (map (\<lambda>m. filter (\<lambda>b. \<not> is_tool_use b) (Content m)) messages)"
    by (simp add: repairMessageHistory_rec others_repair_rec)
qed

theorem repairMessageHistory_spec_witness:
  "repairMessageHistory
     [\<lparr>Role = ''assistant'',
        Content = [OfText ''checking'', OfToolUse ''t1'' ''f'' ''{}'', OfToolUse ''t2'' ''g'' ''{}'']\<rparr>,
      \<lparr>Role = ''user'', Content = [OfToolResult ''t1'' ''ok'' False]\<rparr>,
      \<lparr>Role = ''assistant'', Content = [OfToolUse ''t3'' ''g'' ''{}'']\<rparr>]
   = [\<lparr>Role = ''assistant'', Content = [OfText ''checking'', OfToolUse ''t1'' ''f'' ''{}'']\<rparr>,
      \<lparr>Role = ''user'', Content = [OfToolResult ''t1'' ''ok'' False]\<rparr>]
   \<and> ''t1'' \<in> set (extractToolUseIDs
        \<lparr>Role = ''assistant'', Content = [OfText ''checking'', OfToolUse ''t1'' ''f'' ''{}'']\<rparr>)
   \<and> ''t1'' \<in> set (extractToolResultIDs
        \<lparr>Role = ''user'', Content = [OfToolResult ''t1'' ''ok'' False]\<rparr>)"
proof -
  let ?a1 = "\<lparr>Role = ''assistant'',
        Content = [OfText ''checking'', OfToolUse ''t1'' ''f'' ''{}'', OfToolUse ''t2'' ''g'' ''{}'']\<rparr>"
  let ?u1 = "\<lparr>Role = ''user'', Content = [OfToolResult ''t1'' ''ok'' False]\<rparr>"
  let ?a2 = "\<lparr>Role = ''assistant'', Content = [OfToolUse ''t3'' ''g'' ''{}'']\<rparr>"
  let ?r = "repairMessageHistory [?a1, ?u1, ?a2]"
  have nil: "repairMessageHistory [] = []"
    by (simp add: repairMessageHistory_def)
  have last: "repairMessageHistory [?a2] = []"
    using repairMessageHistory_spec [where messages = "[?a1, ?u1, ?a2]" and msg = ?a2 and rest = "[]"]
    by (simp add: nil MessageParamRoleAssistant_def extractToolUseIDs_def)
  have whole: "?r = [\<lparr>Role = ''assistant'', Content = [OfText ''checking'', OfToolUse ''t1'' ''f'' ''{}'']\<rparr>, ?u1]"
    using repairMessageHistory_spec [where messages = "[?a1, ?u1, ?a2]" and msg = ?a1
        and nxt = ?u1 and rest = "[?a2]"]
    by (simp add: last MessageParamRoleAssistant_def MessageParamRoleUser_def
          extractToolUseIDs_def extractToolResultIDs_def)
  have user: "repairMessageHistory [?u1] = [?u1]"
    using repairMessageHistory_spec [where messages = "[?a1, ?u1, ?a2]" and msg = ?u1 and rest = "[]"]
    by (simp add: nil MessageParamRoleAssistant_def)
  have "0 < length ?r \<and> Role (?r ! 0) = MessageParamRoleAssistant
          \<and> ''t1'' \<in> set (extractToolUseIDs (?r ! 0))"
    by (simp add: whole MessageParamRoleAssistant_def extractToolUseIDs_def)
  with repairMessageHistory_spec [where messages = "[?a1, ?u1, ?a2]" and msg = ?a2 and rest = "[]"]
  have "''t1'' \<in> set (extractToolResultIDs (?r ! Suc 0))"
    by blast
  with whole user show ?thesis
    by (simp add: extractToolUseIDs_def)
qed

section \<open>Results: tool-call identifiers\<close>

lemma length_hex_EncodeToString: "length (hex_EncodeToString bs) = 2 * length bs"
  by (induction bs) (simp_all add: hex_EncodeToString_def)

text \<open>
  Claim C4. The identifier sent to the Protocol-A provider is at most 40 bytes long; an
  input of at most 40 bytes is sent unchanged; a longer one becomes
  \<^verbatim>\<open>"tc_" + hex(sha256(id))[0:37]\<close>, exactly 40 bytes, and a reverse lookup of that short
  identifier in the adapter state left by the normalization returns the original.
\<close>

theorem normalizeToolCallID_spec:
  assumes digest: "length (sha256_sum ident) = 32"
  shows "length (fst (normalizeToolCallID sha256_sum m ident)) \<le> 40
    \<and> (length ident \<le> 40 \<longrightarrow> normalizeToolCallID sha256_sum m ident = (ident, m))
    \<and> (40 < length ident \<longrightarrow>
           fst (normalizeToolCallID sha256_sum m ident)
             = ''tc_'' @ take 37 (hex_EncodeToString (sha256_sum ident))
           \<and> length (fst (normalizeToolCallID sha256_sum m ident)) = 40
           \<and> denormalizeToolCallID (snd (normalizeToolCallID sha256_sum m ident))
                (fst (normalizeToolCallID sha256_sum m ident)) = ident)"
  using digest
  by (simp add: normalizeToolCallID_def denormalizeToolCallID_def maxToolCallIDLength_def
        Let_def length_hex_EncodeToString)

theorem normalizeToolCallID_spec_witness:
  "length (replicate 32 (171 :: byte)) = 32
   \<and> normalizeToolCallID (\<lambda>_. replicate 32 171) \<lparr>toolCall = Map.empty\<rparr> ''call_1''
        = (''call_1'', \<lparr>toolCall = Map.empty\<rparr>)
   \<and> fst (normalizeToolCallID (\<lambda>_. replicate 32 171) \<lparr>toolCall = Map.empty\<rparr>
          ''call_0123456789_0123456789_0123456789_0123456789'')
        = ''tc_ababababababababababababababababababa''
   \<and> denormalizeToolCallID
        (snd (normalizeToolCallID (\<lambda>_. replicate 32 171) \<lparr>toolCall = Map.empty\<rparr>
          ''call_0123456789_0123456789_0123456789_0123456789''))
        (fst (normalizeToolCallID (\<lambda>_. replicate 32 171) \<lparr>toolCall = Map.empty\<rparr>
          ''call_0123456789_0123456789_0123456789_0123456789''))
        = ''call_0123456789_0123456789_0123456789_0123456789''"
proof -
  let ?sha = "\<lambda>_ :: string. replicate 32 (171 :: byte)"
  let ?m = "\<lparr>toolCall = Map.empty\<rparr>"
  let ?long = "''call_0123456789_0123456789_0123456789_0123456789''"
  have hex: "take 37 (hex_EncodeToString (replicate 32 (171 :: byte)))
               = ''ababababababababababababababababababa''"
    by code_simp
  have le: "length ''call_1'' \<le> 40" and gt: "40 < length ?long"
    by simp_all
  have "length (?sha ''call_1'') = 32"
    by simp
  from normalizeToolCallID_spec [of ?sha "''call_1''" ?m, OF this] le
  have short: "normalizeToolCallID ?sha ?m ''call_1'' = (''call_1'', ?m)"
    by blast
  have "length (?sha ?long) = 32"
    by simp
  from normalizeToolCallID_spec [of ?sha ?long ?m, OF this] gt
  have long: "fst (normalizeToolCallID ?sha ?m ?long)
                = ''tc_'' @ take 37 (hex_EncodeToString (?sha ?long))"
    and roundtrip: "denormalizeToolCallID (snd (normalizeToolCallID ?sha ?m ?long))
                (fst (normalizeToolCallID ?sha ?m ?long)) = ?long"
    by blast+
  from long hex have "fst (normalizeToolCallID ?sha ?m ?long)
                        = ''tc_ababababababababababababababababababa''"
    by simp
  with short roundtrip show ?thesis
    by simp
qed

section \<open>Results: cached session service\<close>

lemma attempt_no_faults [simp]: "faults r = [] \<Longrightarrow> attempt r = (False, r)"
  by (simp add: attempt_def)

lemma faults_put [simp]: "faults (put key v ttl r) = faults r"
  by (simp add: put_def)

lemma store_put: "store (put key v ttl r) k
                    = (if k = key then Some \<lparr>entry_value = v, entry_ttl = ttl\<rparr> else store r k)"
  by (simp add: put_def)

lemma session_key_not_events_key [simp]:
  "buildSessionKey a u i \<noteq> buildEventsKey a' u' i'"
  "buildEventsKey a' u' i' \<noteq> buildSessionKey a u i"
  "buildSessionIndexKey a u \<noteq> buildEventsKey a' u' i'"
  "buildEventsKey a' u' i' \<noteq> buildSessionIndexKey a u"
  by (simp_all add: buildSessionKey_def buildEventsKey_def buildSessionIndexKey_def)

lemma session_key_not_index_key [simp]:
  "buildSessionKey a u i \<noteq> buildSessionIndexKey a u"
  "buildSessionIndexKey a u \<noteq> buildSessionKey a u i"
  by (simp_all add: buildSessionKey_def buildSessionIndexKey_def)

lemma rdb_Expire_ok:
  assumes "faults r = []" "0 < ttl"
  shows "rdb_Expire r key ttl
           = (None, case store r key of None \<Rightarrow> r
                    | Some e \<Rightarrow> put key (entry_value e) (Some ttl) r)"
  using assms by (simp add: rdb_Expire_def split: option.splits)



lemma events_list_put:
  "events_list (put key v ttl r) k
     = (if k = key then (case v of RList vs \<Rightarrow> vs | _ \<Rightarrow> []) else events_list r k)"
  by (simp add: events_list_def store_put)

subsection \<open>Which keys a mutation refreshes\<close>















section \<open>Results: schema translation\<close>

lemma map_of_store_processed:
  "map_of (store_processed key processed schema) k
     = (if k = key \<and> processed \<noteq> None then Some (AnyMap (the processed)) else map_of schema k)"
  by (cases processed) (simp_all add: store_processed_def update_conv')

lemma map_of_add_empty_properties:
  "map_of (add_empty_properties schema) k
     = (if k = ''properties'' \<and> map_of schema ''type'' = Some (AnyStr ''object'')
           \<and> map_of schema ''properties'' = None
        then Some (AnyMap []) else map_of schema k)"
  by (auto simp: add_empty_properties_def update_conv' split: option.splits any.splits)

lemma ensureObjectProperties_ok: "props_ok (ensureObjectProperties schema)"
proof (induction schema rule: ensureObjectProperties.induct)
  case (1 schema)
  let ?s1 = "add_empty_properties schema"
  let ?P = "case map_of ?s1 ''properties'' of
             Some (AnyMap props) \<Rightarrow>
               Some (map (\<lambda>(name, prop).
                       (name, case prop of AnyMap propMap \<Rightarrow> AnyMap (ensureObjectProperties propMap)
                              | _ \<Rightarrow> prop)) props)
           | _ \<Rightarrow> None"
  let ?I = "case map_of schema ''items'' of
          Some (AnyMap items) \<Rightarrow> Some (ensureObjectProperties items)
        | _ \<Rightarrow> None"
  let ?r = "ensureObjectProperties schema"
  have r: "?r = store_processed ''items'' ?I (store_processed ''properties'' ?P ?s1)"
    by (subst ensureObjectProperties.simps) simp
  have ty: "map_of ?r ''type'' = map_of schema ''type''"
    by (simp add: r map_of_store_processed map_of_add_empty_properties)
  have pr: "map_of ?r ''properties''
              = (case ?P of Some m \<Rightarrow> Some (AnyMap m) | None \<Rightarrow> map_of ?s1 ''properties'')"
    by (simp add: r map_of_store_processed split: option.splits)
  have it: "map_of ?r ''items''
              = (case ?I of Some m \<Rightarrow> Some (AnyMap m) | None \<Rightarrow> map_of schema ''items'')"
    by (simp add: r map_of_store_processed map_of_add_empty_properties split: option.splits)
  have c1: "map_of ?r ''type'' = Some (AnyStr ''object'') \<longrightarrow> map_of ?r ''properties'' \<noteq> None"
    unfolding ty pr
    by (auto simp: map_of_add_empty_properties split: option.splits any.splits)
  have c2: "case map_of ?r ''properties'' of
          Some (AnyMap props) \<Rightarrow>
            list_all (\<lambda>(name, prop). case prop of AnyMap propMap \<Rightarrow> props_ok propMap | _ \<Rightarrow> True) props
        | _ \<Rightarrow> True"
    unfolding pr using "1.IH"(2)
    by (auto simp: list_all_iff split: option.splits any.splits)
  have c3: "case map_of ?r ''items'' of Some (AnyMap items) \<Rightarrow> props_ok items | _ \<Rightarrow> True"
    unfolding it using "1.IH"(1)
    by (auto split: option.splits any.splits)
  from c1 c2 c3 show ?case
    by (subst props_ok.simps) blast
qed

lemma convertToFunctionParams_ok:
  "convertToFunctionParams via_json params = Some m \<Longrightarrow> props_ok m"
  by (auto simp: convertToFunctionParams_def ensureObjectProperties_ok
        split: tool_params.splits option.splits)

text \<open>
  Claim C6 says that every schema translated for Protocol-A, response schemas included,
  has a \<^verbatim>\<open>properties\<close> field on each node of type \<^verbatim>\<open>"object"\<close>. Tool parameters do
  (\<open>convertToFunctionParams_ok\<close>). A response schema goes through \<^verbatim>\<open>convertSchema\<close>
  alone: for \<^verbatim>\<open>&genai.Schema{Type: genai.TypeObject}\<close> the schema sent is
  \<^verbatim>\<open>{"type": "object"}\<close>, with no \<^verbatim>\<open>properties\<close>.
\<close>

theorem response_schema_object_without_properties:
  "response_format_schema (Some (Schema TypeObject [] [] [] [] None))
     = Some [(''type'', AnyStr ''object'')]
   \<and> map_of [(''type'', AnyStr ''object'')] ''type'' = Some (AnyStr ''object'')
   \<and> map_of [(''type'', AnyStr ''object'')] ''properties'' = None
   \<and> \<not> props_ok [(''type'', AnyStr ''object'')]"
  by (simp add: response_format_schema_def scalar_fields_def schemaTypeToString_def props_ok.simps)

subsection \<open>State set on an absent envelope\<close>

lemma state_Set_absent:
  assumes "has_client s" "faults r = []" "store r (state_key s) = None"
    and "Marshal_state cd (AList.update key v (data s)) = Inr stateJSON"
  shows "state_Set cd r s key v timestamp
           = (Some (Wrap ''failed to persist state atomically'' (Error ''session not found'')),
              s\<lparr>data := AList.update key v (data s)\<rparr>, r)"
  using assms
  by (simp add: state_Set_def persistAtomic_def Script_Run_def updateStateScript_def toMap_def
        redis_Nil_def Let_def)

text \<open>
  Claim C7 says that \<^verbatim>\<open>state.set\<close> on a session whose envelope is absent from the cache
  succeeds silently. The local map is updated, but the script answers the missing key
  with the error reply \<^verbatim>\<open>session not found\<close>, the client hands this back as an error that
  is not \<^verbatim>\<open>redis.Nil\<close>, and \<^verbatim>\<open>Set\<close> returns it wrapped: a state set on an empty cache
  returns an error.
\<close>

theorem state_Set_absent_returns_error:
  "store empty_cache (state_key (sess_state example_session)) = None
   \<and> state_Set example_codec empty_cache (sess_state example_session) ''theme'' (AnyStr ''dark'')
        ''2026-01-01T00:00:00Z''
     = (Some (Wrap ''failed to persist state atomically'' (Error ''session not found'')),
        (sess_state example_session)\<lparr>data := [(''theme'', AnyStr ''dark'')]\<rparr>,
        empty_cache)"
  by (simp add: state_Set_absent [where stateJSON = "''{state}''"] empty_cache_def
        example_session_def example_codec_def)

section \<open>Results: tool-call arguments in responses\<close>

lemma parts_of_tool_calls:
  "[p \<leftarrow> message_parts json_Unmarshal msg. case p of FunctionCall _ _ _ \<Rightarrow> True | _ \<Rightarrow> False]
     = map (\<lambda>tc. FunctionCall (tc_ID tc) (tc_Name tc)
                   (parseJSONArgs json_Unmarshal (tc_Arguments tc))) (ToolCalls msg)"
  by (simp add: message_parts_def filter_map comp_def)

text \<open>
  Claim C8. Decoding the arguments of an inbound tool call cannot fail: the decoders
  return a map, never an error. Protocol-A (\<^verbatim>\<open>parseJSONArgs\<close>): an empty string and a
  text the JSON decoder rejects give the empty map, any other text gives what the decoder
  gives. Protocol-B (\<^verbatim>\<open>convertToolInput\<close>): a nil input, raw bytes the decoder rejects
  and a value that cannot be encoded give the empty map. In a translated response every
  tool call of the message is a function-call part, in order, with its arguments decoded
  this way, and the translation fails only when the response has no choices.
\<close>

theorem tool_call_args_total:
  "(argsJSON = [] \<longrightarrow> parseJSONArgs json_Unmarshal argsJSON = Some [])
   \<and> (\<forall>err. json_Unmarshal argsJSON = Inl err \<longrightarrow> parseJSONArgs json_Unmarshal argsJSON = Some [])
   \<and> (\<forall>args. argsJSON \<noteq> [] \<and> json_Unmarshal argsJSON = Inr args
         \<longrightarrow> parseJSONArgs json_Unmarshal argsJSON = args)
   \<and> convertToolInput json_Marshal json_Unmarshal InputNil = Some []
   \<and> convertToolInput json_Marshal json_Unmarshal (InputMap m) = m
   \<and> (\<forall>err. json_Unmarshal raw = Inl err
         \<longrightarrow> convertToolInput json_Marshal json_Unmarshal (InputRaw raw) = Some [])
   \<and> (\<forall>result. json_Unmarshal raw = Inr result
         \<longrightarrow> convertToolInput json_Marshal json_Unmarshal (InputRaw raw) = result)
   \<and> (\<forall>err. json_Marshal x = Inl err
         \<longrightarrow> convertToolInput json_Marshal json_Unmarshal (InputOther x) = Some [])
   \<and> (\<forall>data. json_Marshal x = Inr data
         \<longrightarrow> convertToolInput json_Marshal json_Unmarshal (InputOther x)
             = convertToolInput json_Marshal json_Unmarshal (InputRaw data))
   \<and> (Choices resp \<noteq> [] \<longrightarrow>
        (\<exists>r. convertResponse json_Unmarshal (Some resp) = Inr r
           \<and> [p \<leftarrow> Parts (resp_Content r). case p of FunctionCall _ _ _ \<Rightarrow> True | _ \<Rightarrow> False]
               = map (\<lambda>tc. FunctionCall (tc_ID tc) (tc_Name tc)
                             (parseJSONArgs json_Unmarshal (tc_Arguments tc)))
                   (ToolCalls (choice_Message (hd (Choices resp))))))
   \<and> [p \<leftarrow> Parts (resp_Content (buildStreamFinalResponse json_Unmarshal resp)).
          case p of FunctionCall _ _ _ \<Rightarrow> True | _ \<Rightarrow> False]
       = (if Choices resp = [] then []
          else map (\<lambda>tc. FunctionCall (tc_ID tc) (tc_Name tc)
                            (parseJSONArgs json_Unmarshal (tc_Arguments tc)))
                 (ToolCalls (choice_Message (hd (Choices resp)))))
   \<and> [p \<leftarrow> Parts (resp_Content (convertResponse_B json_Marshal json_Unmarshal message)).
          case p of FunctionCall _ _ _ \<Rightarrow> True | _ \<Rightarrow> False]
       = concat (map (\<lambda>b. case b of
                       ToolUseBlock i n input \<Rightarrow>
                         [FunctionCall i n (convertToolInput json_Marshal json_Unmarshal input)]
                     | _ \<Rightarrow> []) (Content_B message))"
proof -
  have B: "[p \<leftarrow> block_parts json_Marshal json_Unmarshal bs.
              case p of FunctionCall _ _ _ \<Rightarrow> True | _ \<Rightarrow> False]
       = concat (map (\<lambda>b. case b of
                       ToolUseBlock i n input \<Rightarrow>
                         [FunctionCall i n (convertToolInput json_Marshal json_Unmarshal input)]
                     | _ \<Rightarrow> []) bs)" for bs
    by (induction bs rule: block_parts.induct) simp_all
  have A: "Choices resp \<noteq> [] \<longrightarrow>
        (\<exists>r. convertResponse json_Unmarshal (Some resp) = Inr r
           \<and> [p \<leftarrow> Parts (resp_Content r). case p of FunctionCall _ _ _ \<Rightarrow> True | _ \<Rightarrow> False]
               = map (\<lambda>tc. FunctionCall (tc_ID tc) (tc_Name tc)
                             (parseJSONArgs json_Unmarshal (tc_Arguments tc)))
                   (ToolCalls (choice_Message (hd (Choices resp)))))"
    by (simp add: convertResponse_def Let_def parts_of_tool_calls)
  have S: "[p \<leftarrow> Parts (resp_Content (buildStreamFinalResponse json_Unmarshal resp)).
          case p of FunctionCall _ _ _ \<Rightarrow> True | _ \<Rightarrow> False]
       = (if Choices resp = [] then []
          else map (\<lambda>tc. FunctionCall (tc_ID tc) (tc_Name tc)
                            (parseJSONArgs json_Unmarshal (tc_Arguments tc)))
                 (ToolCalls (choice_Message (hd (Choices resp)))))"
    by (simp add: buildStreamFinalResponse_def parts_of_tool_calls)
  have D1: "argsJSON = [] \<longrightarrow> parseJSONArgs json_Unmarshal argsJSON = Some []"
    by (auto simp: parseJSONArgs_def)
  have D2: "\<forall>err. json_Unmarshal argsJSON = Inl err
              \<longrightarrow> parseJSONArgs json_Unmarshal argsJSON = Some []"
    by (auto simp: parseJSONArgs_def)
  have D3: "\<forall>args. argsJSON \<noteq> [] \<and> json_Unmarshal argsJSON = Inr args
         \<longrightarrow> parseJSONArgs json_Unmarshal argsJSON = args"
    by (auto simp: parseJSONArgs_def)
  have C1: "convertToolInput json_Marshal json_Unmarshal InputNil = Some []"
    by (auto simp: convertToolInput_def)
  have C2: "convertToolInput json_Marshal json_Unmarshal (InputMap m) = m"
    by (auto simp: convertToolInput_def)
  have C3: "\<forall>err. json_Unmarshal raw = Inl err
         \<longrightarrow> convertToolInput json_Marshal json_Unmarshal (InputRaw raw) = Some []"
    by (auto simp: convertToolInput_def)
  have C4: "\<forall>result. json_Unmarshal raw = Inr result
         \<longrightarrow> convertToolInput json_Marshal json_Unmarshal (InputRaw raw) = result"
    by (auto simp: convertToolInput_def)
  have C5: "\<forall>err. json_Marshal x = Inl err
         \<longrightarrow> convertToolInput json_Marshal json_Unmarshal (InputOther x) = Some []"
    by (auto simp: convertToolInput_def)
  have C6: "\<forall>data. json_Marshal x = Inr data
         \<longrightarrow> convertToolInput json_Marshal json_Unmarshal (InputOther x)
             = convertToolInput json_Marshal json_Unmarshal (InputRaw data)"
    by (auto simp: convertToolInput_def)
  have B': "[p \<leftarrow> Parts (resp_Content (convertResponse_B json_Marshal json_Unmarshal message)).
          case p of FunctionCall _ _ _ \<Rightarrow> True | _ \<Rightarrow> False]
       = concat (map (\<lambda>b. case b of
                       ToolUseBlock i n input \<Rightarrow>
                         [FunctionCall i n (convertToolInput json_Marshal json_Unmarshal input)]
                     | _ \<Rightarrow> []) (Content_B message))"
    using B [of "Content_B message"] by (simp add: convertResponse_B_def)
  show ?thesis
    by (intro conjI; fact)
qed

theorem tool_call_args_total_witness:
  "rejecting_Unmarshal ''{city: '' = Inl ''invalid character''
   \<and> parseJSONArgs rejecting_Unmarshal [] = Some []
   \<and> parseJSONArgs rejecting_Unmarshal ''{city: '' = Some []
   \<and> convertToolInput failing_Marshal rejecting_Unmarshal (InputRaw ''{city: '') = Some []
   \<and> convertToolInput failing_Marshal rejecting_Unmarshal (InputOther ()) = Some []
   \<and> convertResponse rejecting_Unmarshal
        (Some \<lparr>Choices = [\<lparr>choice_Message = \<lparr>message_Content = [],
                  ToolCalls = [\<lparr>tc_ID = ''call_1'', tc_Name = ''weather'',
                                tc_Arguments = ''{city: ''\<rparr>]\<rparr>,
                choice_FinishReason = ''tool_calls''\<rparr>],
               Usage = \<lparr>PromptTokens = 0, CompletionTokens = 0, TotalTokens = 0\<rparr>\<rparr>)
      = Inr \<lparr>resp_Content = \<lparr>genai_Role = RoleModel,
                Parts = [FunctionCall ''call_1'' ''weather'' (Some [])]\<rparr>,
              resp_UsageMetadata = None,
              resp_FinishReason = FinishReasonStop,
              Partial = False, TurnComplete = True\<rparr>"
proof -
  have rej: "rejecting_Unmarshal ''{city: '' = Inl ''invalid character''"
    by (simp add: rejecting_Unmarshal_def)
  have mar: "failing_Marshal () = Inl ''unsupported type''"
    by (simp add: failing_Marshal_def)
  note th = tool_call_args_total [where json_Unmarshal = rejecting_Unmarshal
      and json_Marshal = failing_Marshal and argsJSON = "''{city: ''" and raw = "''{city: ''"
      and x = "()"]
  from th [THEN conjunct2, THEN conjunct1] rej have a: "parseJSONArgs rejecting_Unmarshal ''{city: '' = Some []"
    by blast
  from th [THEN conjunct2, THEN conjunct2, THEN conjunct2, THEN conjunct2, THEN conjunct2, THEN conjunct1] rej have b: "convertToolInput failing_Marshal rejecting_Unmarshal (InputRaw ''{city: '') = Some []"
    by blast
  from th [THEN conjunct2, THEN conjunct2, THEN conjunct2, THEN conjunct2, THEN conjunct2, THEN conjunct2, THEN conjunct2, THEN conjunct1] mar have c: "convertToolInput failing_Marshal rejecting_Unmarshal (InputOther ()) = Some []"
    by blast
  from tool_call_args_total [where json_Unmarshal = rejecting_Unmarshal and argsJSON = "[]",
      THEN conjunct1]
  have d: "parseJSONArgs rejecting_Unmarshal [] = Some []"
    by blast
  have e: "convertResponse rejecting_Unmarshal
        (Some \<lparr>Choices = [\<lparr>choice_Message = \<lparr>message_Content = [],
                  ToolCalls = [\<lparr>tc_ID = ''call_1'', tc_Name = ''weather'',
                                tc_Arguments = ''{city: ''\<rparr>]\<rparr>,
                choice_FinishReason = ''tool_calls''\<rparr>],
               Usage = \<lparr>PromptTokens = 0, CompletionTokens = 0, TotalTokens = 0\<rparr>\<rparr>)
      = Inr \<lparr>resp_Content = \<lparr>genai_Role = RoleModel,
                Parts = [FunctionCall ''call_1'' ''weather'' (Some [])]\<rparr>,
              resp_UsageMetadata = None,
              resp_FinishReason = FinishReasonStop,
              Partial = False, TurnComplete = True\<rparr>"
    by (simp add: convertResponse_def message_parts_def a convertUsageMetadata_def
          convertFinishReason_def)
  show ?thesis
    by (intro conjI; fact)
qed

subsection \<open>Appending an event is not atomic\<close>

text \<open>Once the \<^verbatim>\<open>RPUSH\<close> has succeeded, no later step of \<^verbatim>\<open>AppendEvent\<close> undoes it.\<close>

lemma events_list_attempt [simp]: "events_list (snd (attempt r)) k = events_list r k"
  by (auto simp: attempt_def events_list_def split: list.splits)

lemma events_list_Expire:
  assumes "0 < ttl"
  shows "events_list (snd (rdb_Expire r key ttl)) k = events_list r k"
proof -
  obtain f r' where a: "attempt r = (f, r')"
    by (cases "attempt r")
  with events_list_attempt [of r k] have e: "events_list r' k = events_list r k"
    by simp
  show ?thesis
  proof (cases f)
    case True
    with a e show ?thesis by (simp add: rdb_Expire_def)
  next
    case False
    with a e assms show ?thesis
      by (cases "store r' key") (auto simp: rdb_Expire_def events_list_def store_put)
  qed
qed

lemma events_list_Get: "events_list (snd (rdb_Get r key)) k = events_list r k"
proof -
  obtain f r' where a: "attempt r = (f, r')"
    by (cases "attempt r")
  with events_list_attempt [of r k] have e: "events_list r' k = events_list r k"
    by simp
  with a show ?thesis
    by (cases f) (auto simp: rdb_Get_def split: option.splits redis_value.splits)
qed

lemma events_list_Set:
  assumes "k \<noteq> key"
  shows "events_list (snd (rdb_Set r key v ttl)) k = events_list r k"
proof -
  obtain f r' where a: "attempt r = (f, r')"
    by (cases "attempt r")
  with events_list_attempt [of r k] have e: "events_list r' k = events_list r k"
    by simp
  with a assms show ?thesis
    by (cases f) (auto simp: rdb_Set_def events_list_put)
qed

lemma events_list_RPush:
  assumes "rdb_RPush r key v = (None, r1)"
  shows "events_list r1 key = events_list r key @ [v]"
proof -
  obtain f r' where a: "attempt r = (f, r')"
    by (cases "attempt r")
  with events_list_attempt [of r key] have e: "events_list r' key = events_list r key"
    by simp
  with a assms show ?thesis
    by (cases f)
       (auto simp: rdb_RPush_def events_list_def store_put
          split: option.splits redis_value.splits)
qed

lemma AppendEvent_after_RPush:
  assumes ttl: "0 < svc_ttl s"
    and enc: "Marshal_event cd
                (if ev_ID evt = [] then evt\<lparr>ev_Timestamp := now1, ev_ID := fresh_id\<rparr>
                 else evt\<lparr>ev_Timestamp := now1\<rparr>) = Inr bytes"
    and push: "rdb_RPush r (buildEventsKey (sess_appName sess) (sess_userID sess) (sess_id sess))
                 bytes = (None, r1)"
  shows "events_list (snd (AppendEvent cd s r (Some sess) evt fresh_id now1 now2))
           (buildEventsKey (sess_appName sess) (sess_userID sess) (sess_id sess))
         = events_list r (buildEventsKey (sess_appName sess) (sess_userID sess) (sess_id sess))
           @ [bytes]"
proof -
  let ?ev = "buildEventsKey (sess_appName sess) (sess_userID sess) (sess_id sess)"
  let ?key = "buildSessionKey (sess_appName sess) (sess_userID sess) (sess_id sess)"
  obtain e2 r2 where ex: "rdb_Expire r1 ?ev (svc_ttl s) = (e2, r2)"
    by (cases "rdb_Expire r1 ?ev (svc_ttl s)")
  obtain g r3 where get: "rdb_Get r2 ?key = (g, r3)"
    by (cases "rdb_Get r2 ?key")
  have l1: "events_list r1 ?ev = events_list r ?ev @ [bytes]"
    by (rule events_list_RPush [OF push])
  have l2: "events_list r2 ?ev = events_list r1 ?ev"
    using events_list_Expire [OF ttl, of r1 ?ev ?ev] ex by simp
  have l3: "events_list r3 ?ev = events_list r2 ?ev"
    using events_list_Get [of r2 ?key ?ev] get by simp
  have l4: "events_list r4 ?ev = events_list r3 ?ev"
    if "rdb_Set r3 ?key v (svc_ttl s) = (e, r4)" for v e r4
    using events_list_Set [of ?ev ?key r3 v "svc_ttl s"] that by simp
  have enc': "Marshal_event cd
                (if ev_ID (evt\<lparr>ev_Timestamp := now1\<rparr>) = []
                 then evt\<lparr>ev_Timestamp := now1, ev_ID := fresh_id\<rparr>
                 else evt\<lparr>ev_Timestamp := now1\<rparr>) = Inr bytes"
    using enc by simp
  show ?thesis
    using enc' push ex get l1 l2 l3
    by (auto simp: AppendEvent_def Let_def split: sum.splits option.splits prod.splits dest: l4)
qed

text \<open>
  Claim C10. \<^verbatim>\<open>AppendEvent\<close> pushes the event onto the events list before it reads the
  session envelope. Whenever the push has succeeded the list ends up one element longer,
  whatever the call returns; and when the session record is absent the call returns the
  error of the failed read, with the event still appended.
\<close>

theorem AppendEvent_not_atomic:
  assumes ttl: "0 < svc_ttl s"
    and enc: "Marshal_event cd
                (if ev_ID evt = [] then evt\<lparr>ev_Timestamp := now1, ev_ID := fresh_id\<rparr>
                 else evt\<lparr>ev_Timestamp := now1\<rparr>) = Inr bytes"
    and push: "rdb_RPush r (buildEventsKey (sess_appName sess) (sess_userID sess) (sess_id sess))
                 bytes = (None, r1)"
  shows "events_list (snd (AppendEvent cd s r (Some sess) evt fresh_id now1 now2))
           (buildEventsKey (sess_appName sess) (sess_userID sess) (sess_id sess))
         = events_list r (buildEventsKey (sess_appName sess) (sess_userID sess) (sess_id sess))
           @ [bytes]
       \<and> (faults r = []
            \<and> store r (buildSessionKey (sess_appName sess) (sess_userID sess) (sess_id sess)) = None
          \<longrightarrow> fst (AppendEvent cd s r (Some sess) evt fresh_id now1 now2)
                = Some (Wrap ''failed to get session for update'' redis_Nil))"
proof -
  let ?ev = "buildEventsKey (sess_appName sess) (sess_userID sess) (sess_id sess)"
  let ?key = "buildSessionKey (sess_appName sess) (sess_userID sess) (sess_id sess)"
  have enc': "Marshal_event cd
                (if ev_ID (evt\<lparr>ev_Timestamp := now1\<rparr>) = []
                 then evt\<lparr>ev_Timestamp := now1, ev_ID := fresh_id\<rparr>
                 else evt\<lparr>ev_Timestamp := now1\<rparr>) = Inr bytes"
    using enc by simp
  have err: "fst (AppendEvent cd s r (Some sess) evt fresh_id now1 now2)
                = Some (Wrap ''failed to get session for update'' redis_Nil)"
    if nf: "faults r = []" and absent: "store r ?key = None"
  proof -
    from push nf have f1: "faults r1 = []" and s1: "store r1 ?key = None"
      using absent
      by (auto simp: rdb_RPush_def store_put split: option.splits redis_value.splits)
    from f1 ttl have ex: "rdb_Expire r1 ?ev (svc_ttl s)
           = (None, case store r1 ?ev of None \<Rightarrow> r1
                    | Some e \<Rightarrow> put ?ev (entry_value e) (Some (svc_ttl s)) r1)"
      by (rule rdb_Expire_ok)
    let ?r2 = "case store r1 ?ev of None \<Rightarrow> r1
                    | Some e \<Rightarrow> put ?ev (entry_value e) (Some (svc_ttl s)) r1"
    have f2: "faults ?r2 = []" and s2: "store ?r2 ?key = None"
      using f1 s1 by (auto simp: store_put split: option.splits)
    then have "rdb_Get ?r2 ?key = (Inl redis_Nil, ?r2)"
      by (simp add: rdb_Get_def)
    with enc' push ex show ?thesis
      by (simp add: AppendEvent_def Let_def)
  qed
  from AppendEvent_after_RPush [OF ttl enc push] err show ?thesis
    by blast
qed

theorem AppendEvent_not_atomic_witness:
  "0 < svc_ttl example_service
   \<and> store empty_cache ''session:app:u1:s1'' = None
   \<and> fst (AppendEvent example_codec example_service empty_cache (Some example_session)
            example_event ''fresh'' 1 2)
       = Some (Wrap ''failed to get session for update'' redis_Nil)
   \<and> events_list
        (snd (AppendEvent example_codec example_service empty_cache (Some example_session)
                example_event ''fresh'' 1 2))
        ''events:app:u1:s1''
       = [''{event}'']"
proof -
  have ttl: "0 < svc_ttl example_service"
    by (simp add: example_service_def DefaultSessionTTL_def Second_def)
  have ev: "buildEventsKey (sess_appName example_session) (sess_userID example_session)
              (sess_id example_session) = ''events:app:u1:s1''"
    and key: "buildSessionKey (sess_appName example_session) (sess_userID example_session)
              (sess_id example_session) = ''session:app:u1:s1''"
    by (simp_all add: buildEventsKey_def buildSessionKey_def example_session_def)
  have enc: "Marshal_event example_codec
                (if ev_ID example_event = []
                 then example_event\<lparr>ev_Timestamp := 1, ev_ID := ''fresh''\<rparr>
                 else example_event\<lparr>ev_Timestamp := 1\<rparr>) = Inr ''{event}''"
    by (simp add: example_codec_def)
  have push: "rdb_RPush empty_cache
                (buildEventsKey (sess_appName example_session) (sess_userID example_session)
                   (sess_id example_session)) ''{event}''
              = (None, put ''events:app:u1:s1'' (RList [''{event}'']) None empty_cache)"
    by (simp add: ev rdb_RPush_def empty_cache_def)
  have nf: "faults empty_cache = []" and ab: "store empty_cache ''session:app:u1:s1'' = None"
    and el: "events_list empty_cache ''events:app:u1:s1'' = []"
    by (simp_all add: empty_cache_def events_list_def)
  from AppendEvent_not_atomic [OF ttl enc push, of 2] nf ab el
  show ?thesis
    using ttl by (simp add: ev key)
qed

section \<open>Results: shard routing\<close>

lemma digit_chars:
  "digit_char 0 = CHR ''0''" "digit_char 1 = CHR ''1''" "digit_char 2 = CHR ''2''"
  "digit_char 3 = CHR ''3''" "digit_char 4 = CHR ''4''" "digit_char 5 = CHR ''5''"
  "digit_char 6 = CHR ''6''" "digit_char 7 = CHR ''7''" "digit_char 8 = CHR ''8''"
  "digit_char 9 = CHR ''9''"
  unfolding digit_char_def by simp_all

lemma nextPowerOfTwo_above_32_bits: "nextPowerOfTwo 4294967297 = 8589934591"
  by (simp add: nextPowerOfTwo_def Let_def word_sle_eq)

lemma nextPowerOfTwo_overflow: "nextPowerOfTwo 9223372036854775807 = - 9223372036854775808"
  by (simp add: nextPowerOfTwo_def Let_def word_sle_eq)

lemma fnv1a32_b: "fnv1a32 ''b'' = 3876335077"
  by (simp add: fnv1a32_def)

subsection \<open>Configured counts up to \<open>2^32\<close>\<close>

text \<open>
  The shifts by 1, 2, 4, 8 and 16 copy every set bit of a non-negative \<open>m\<close> to the 31
  places below it. When the highest set bit of \<open>n - 1\<close> is below place 32 the result is
  the mask up to that bit, and \<^verbatim>\<open>nextPowerOfTwo\<close> returns the least power of two
  that is at least \<open>n\<close>.
\<close>

lemma nextPowerOfTwo_smear:
  "nextPowerOfTwo n = (if n \<le>s 1 then 1 else smear (n - 1) + 1)"
  by (simp add: nextPowerOfTwo_def smear_def Let_def)

lemma bit_sdb:
  fixes x :: go_int
  assumes "\<not> bit x 63"
  shows "bit (signed_drop_bit k x) i \<longleftrightarrow> bit x (i + k)"
proof (cases "64 - k \<le> i \<and> i < 64")
  case True
  then have "63 \<le> i + k" by arith
  then have "\<not> bit x (i + k)"
    using assms bit_imp_le_length [of x "i + k"] by (cases "i + k = 63") auto
  with True assms show ?thesis
    by (simp add: bit_signed_drop_bit_iff)
next
  case False
  then have "bit (signed_drop_bit k x) i \<longleftrightarrow> i < 64 \<and> bit x (i + k)"
    by (auto simp: bit_signed_drop_bit_iff add.commute dest: bit_imp_le_length)
  also have "\<dots> \<longleftrightarrow> bit x (i + k)"
    using bit_imp_le_length [of x "i + k"] by auto
  finally show ?thesis .
qed

lemma bit_step:
  fixes x :: go_int
  assumes "\<not> bit x 63"
  shows "bit (x OR signed_drop_bit k x) i \<longleftrightarrow> bit x i \<or> bit x (i + k)"
  by (simp add: bit_or_iff bit_sdb [OF assms])

lemma top_step:
  fixes x :: go_int
  assumes "\<not> bit x 63" "0 < k"
  shows "\<not> bit (x OR signed_drop_bit k x) 63"
  using assms bit_imp_le_length [of x "63 + k"]
  by (auto simp: bit_or_iff bit_sdb)

lemma smear_doubling:
  fixes x m :: go_int
  assumes top: "\<not> bit x 63"
    and b: "\<And>j. bit x j \<longleftrightarrow> (\<exists>d<k. bit m (j + d))"
  shows "bit (x OR signed_drop_bit k x) j \<longleftrightarrow> (\<exists>d<2 * k. bit m (j + d))"
proof
  assume "bit (x OR signed_drop_bit k x) j"
  with bit_step [OF top, of k j] consider "bit x j" | "bit x (j + k)"
    by blast
  then show "\<exists>d<2 * k. bit m (j + d)"
  proof cases
    case 1
    with b [of j] obtain d where d: "d < k" "bit m (j + d)"
      by blast
    from d(1) have "d < 2 * k"
      by arith
    with d(2) show ?thesis
      by blast
  next
    case 2
    with b [of "j + k"] obtain d where d: "d < k" "bit m (j + k + d)"
      by blast
    from d(1) have "k + d < 2 * k"
      by arith
    moreover from d(2) have "bit m (j + (k + d))"
      by (simp only: add.assoc)
    ultimately show ?thesis
      by blast
  qed
next
  assume "\<exists>d<2 * k. bit m (j + d)"
  then obtain d where d: "d < 2 * k" "bit m (j + d)"
    by blast
  show "bit (x OR signed_drop_bit k x) j"
  proof (cases "d < k")
    case True
    with d(2) b [of j] have "bit x j"
      by blast
    with bit_step [OF top, of k j] show ?thesis
      by blast
  next
    case False
    then have "j + d = j + k + (d - k)"
      by arith
    with d(2) have "bit m (j + k + (d - k))"
      by (simp only:)
    moreover from False d(1) have "d - k < k"
      by arith
    ultimately have "bit x (j + k)"
      using b [of "j + k"] by blast
    with bit_step [OF top, of k j] show ?thesis
      by blast
  qed
qed

lemma bit_smear:
  fixes m :: go_int
  assumes "\<not> bit m 63"
  shows "bit (smear m) i \<longleftrightarrow> (\<exists>d<32. bit m (i + d))"
proof -
  define n2 where "n2 = m OR signed_drop_bit 1 m"
  define n3 where "n3 = n2 OR signed_drop_bit 2 n2"
  define n4 where "n4 = n3 OR signed_drop_bit 4 n3"
  define n5 where "n5 = n4 OR signed_drop_bit 8 n4"
  define n6 where "n6 = n5 OR signed_drop_bit 16 n5"
  have t2: "\<not> bit n2 63" unfolding n2_def by (rule top_step [OF assms]) simp
  have t3: "\<not> bit n3 63" unfolding n3_def by (rule top_step [OF t2]) simp
  have t4: "\<not> bit n4 63" unfolding n4_def by (rule top_step [OF t3]) simp
  have t5: "\<not> bit n5 63" unfolding n5_def by (rule top_step [OF t4]) simp
  have b1: "bit m j \<longleftrightarrow> (\<exists>d<1. bit m (j + d))" for j
    by simp
  have b2: "bit n2 j \<longleftrightarrow> (\<exists>d<2. bit m (j + d))" for j
    unfolding n2_def using smear_doubling [OF assms b1, of j] by (simp only: mult_1_right mult_2 one_add_one)
  have b3: "bit n3 j \<longleftrightarrow> (\<exists>d<4. bit m (j + d))" for j
    unfolding n3_def using smear_doubling [OF t2 b2, of j] by simp
  have b4: "bit n4 j \<longleftrightarrow> (\<exists>d<8. bit m (j + d))" for j
    unfolding n4_def using smear_doubling [OF t3 b3, of j] by simp
  have b5: "bit n5 j \<longleftrightarrow> (\<exists>d<16. bit m (j + d))" for j
    unfolding n5_def using smear_doubling [OF t4 b4, of j] by simp
  have b6: "bit n6 j \<longleftrightarrow> (\<exists>d<32. bit m (j + d))" for j
    unfolding n6_def using smear_doubling [OF t5 b5, of j] by simp
  have "smear m = n6"
    by (simp add: smear_def Let_def n6_def n5_def n4_def n3_def n2_def)
  with b6 show ?thesis
    by simp
qed

lemma top_bit:
  fixes m :: go_int
  assumes "m \<noteq> 0"
  obtains h where "bit m h" "\<And>j. h < j \<Longrightarrow> \<not> bit m j" "h < 64"
proof -
  let ?S = "{i. bit m i}"
  have fin: "finite ?S"
    by (rule finite_subset [of _ "{..<64}"]) (auto dest: bit_imp_le_length)
  from assms have ne: "?S \<noteq> {}"
    by (auto simp: bit_eq_iff)
  from Max_in [OF fin ne] have 1: "bit m (Max ?S)"
    by simp
  have 2: "\<not> bit m j" if "Max ?S < j" for j
  proof
    assume "bit m j"
    then have "j \<in> ?S"
      by simp
    from Max_ge [OF fin this] that show False
      by simp
  qed
  from 1 have 3: "Max ?S < 64"
    by (auto dest: bit_imp_le_length)
  from 1 2 3 show thesis
    by (rule that)
qed

lemma smear_mask:
  fixes m :: go_int
  assumes h: "bit m h" "\<And>j. h < j \<Longrightarrow> \<not> bit m j" "h < 32"
  shows "smear m = mask (Suc h)"
proof (rule bit_eqI)
  fix i
  assume "possible_bit TYPE(go_int) i"
  then have i: "i < 64"
    by (simp add: possible_bit_def)
  from h have top: "\<not> bit m 63"
    by simp
  have "bit (smear m) i \<longleftrightarrow> i \<le> h"
  proof
    assume "bit (smear m) i"
    then obtain d where "d < 32" "bit m (i + d)"
      unfolding bit_smear [OF top] by blast
    with h(2) [of "i + d"] show "i \<le> h"
      by (cases "h < i + d") auto
  next
    assume "i \<le> h"
    with h(3) have "h - i < 32" "i + (h - i) = h"
      by simp_all
    with h(1) show "bit (smear m) i"
      unfolding bit_smear [OF top] by (intro exI [of _ "h - i"]) simp
  qed
  with i h(3) show "bit (smear m) i = bit (mask (Suc h) :: go_int) i"
    by (auto simp: bit_mask_iff)
qed

lemma bit_ge_exp:
  fixes m :: go_int
  assumes "bit m h"
  shows "2 ^ h \<le> unat m"
proof -
  from assms have "bit (unat m) h"
    by (simp add: bit_unsigned_iff)
  then have "odd (unat m div 2 ^ h)"
    by (simp add: bit_iff_odd)
  then have "unat m div 2 ^ h \<noteq> 0"
    by (intro notI) simp
  then show ?thesis
    by (simp add: div_eq_0_iff not_less)
qed

lemma below_next_exp:
  fixes m :: go_int
  assumes "\<And>j. h < j \<Longrightarrow> \<not> bit m j"
  shows "unat m < 2 ^ Suc h"
proof -
  have "take_bit (Suc h) (unat m) = unat m"
  proof (rule bit_eqI)
    fix i
    show "bit (take_bit (Suc h) (unat m)) i = bit (unat m) i"
      using assms [of i] by (cases "h < i") (auto simp: bit_take_bit_iff bit_unsigned_iff)
  qed
  then show ?thesis
    by (metis take_bit_nat_less_exp)
qed

lemma sint_nonneg:
  fixes w :: go_int
  assumes "\<not> bit w 63"
  shows "sint w = int (unat w)"
proof -
  from assms have "\<not> bit (uint w) 63"
    by (simp add: bit_uint_iff)
  then have "sint w = take_bit 63 (uint w)"
    by (simp add: sint_uint signed_take_bit_eq_if_positive)
  also have "\<dots> = uint w"
    using assms
  proof (intro bit_eqI)
    fix i
    have "bit w i \<Longrightarrow> i < 63"
    proof -
      assume b: "bit w i"
      then have "i < 64"
        by (auto dest: bit_imp_le_length)
      moreover from b assms have "i \<noteq> 63"
        by auto
      ultimately show "i < 63"
        by arith
    qed
    then show "bit (take_bit 63 (uint w)) i \<longleftrightarrow> bit (uint w) i"
      by (auto simp: bit_take_bit_iff bit_uint_iff)
  qed
  finally show ?thesis
    by simp
qed

lemma positive_not_sle_1:
  fixes n :: go_int
  assumes lo: "1 < unat n" and hi: "unat n \<le> 2 ^ 32"
  shows "\<not> n \<le>s 1"
proof -
  have "\<not> bit n 63"
  proof
    assume "bit n 63"
    from bit_ge_exp [OF this] hi show False
      by simp
  qed
  moreover from lo have "1 < uint n"
    unfolding unat_eq_nat_uint by arith
  ultimately have "1 < sint n"
    by (simp add: sint_nonneg)
  then show ?thesis
    by (simp add: word_sle_eq)
qed


lemma unat_pred:
  fixes n :: go_int
  assumes "1 < unat n"
  shows "unat (n - 1) = unat n - 1"
  using assms by (metis not_less_zero unat_minus_one unsigned_0)

lemma nextPowerOfTwo_rounds_up:
  fixes n :: go_int
  assumes lo: "1 < unat n" and hi: "unat n \<le> 2 ^ 32"
  shows "\<exists>k\<le>32. nextPowerOfTwo n = 2 ^ k \<and> unat n \<le> 2 ^ k \<and> 2 ^ k < 2 * unat n"
proof -
  define m where "m = n - 1"
  have um: "unat m = unat n - 1"
    unfolding m_def using lo by (rule unat_pred)
  with lo have "unat m \<noteq> 0"
    by simp
  then have "m \<noteq> 0"
    by (intro notI) simp
  from top_bit [OF this] obtain h where h: "bit m h" "\<And>j. h < j \<Longrightarrow> \<not> bit m j"
    by blast
  from bit_ge_exp [OF h(1)] um lo hi have lt: "(2::nat) ^ h < 2 ^ 32"
    by simp
  have h32: "h < 32"
  proof (rule power_less_imp_less_exp [where a = "2::nat"])
    show "(1::nat) < 2"
      by simp
    show "(2::nat) ^ h < 2 ^ 32"
      by (fact lt)
  qed
  from h h32 have "smear m = mask (Suc h)"
    by (intro smear_mask) auto
  with positive_not_sle_1 [OF lo hi] have np: "nextPowerOfTwo n = 2 ^ Suc h"
    by (simp add: nextPowerOfTwo_smear m_def mask_eq_exp_minus_1)
  from below_next_exp [of h m] h(2) um have "unat n \<le> 2 ^ Suc h"
    by fastforce
  moreover from bit_ge_exp [OF h(1)] um lo have "(2::nat) ^ Suc h < 2 * unat n"
    by simp
  moreover from h32 have "Suc h \<le> 32"
    by simp
  ultimately show ?thesis
    using np by blast
qed

lemma unat_exp:
  assumes "k < 63"
  shows "unat (2 ^ k :: go_int) = 2 ^ k"
  using assms by (intro bit_eqI) (auto simp: bit_unsigned_iff bit_exp_iff)

lemma isPowerOfTwo_exp:
  assumes "k < 63"
  shows "isPowerOfTwo (2 ^ k)"
proof -
  have a: "(2 ^ k :: go_int) AND (2 ^ k - 1) = 0"
    by (rule bit_eqI) (auto simp: bit_and_iff bit_exp_iff bit_mask_iff simp flip: mask_eq_exp_minus_1)
  have "\<not> bit (2 ^ k :: go_int) 63"
    using assms by (simp add: bit_exp_iff)
  then have "sint (2 ^ k :: go_int) = int (unat (2 ^ k :: go_int))"
    by (rule sint_nonneg)
  moreover have "unat (2 ^ k :: go_int) = 2 ^ k"
    using assms by (rule unat_exp)
  ultimately have "0 < sint (2 ^ k :: go_int)"
    by simp
  with a show ?thesis
    by (simp add: isPowerOfTwo_def word_sless_alt)
qed


lemma client_shardCount_default:
  assumes "cfg \<le>s 0"
  shows "client_shardCount cfg = 8"
  using assms
  by (simp add: client_shardCount_def DefaultShardCount_def isPowerOfTwo_def Let_def
        word_sless_alt)

lemma client_shardCount_rounds_up:
  assumes pos: "0 <s cfg" and hi: "unat cfg \<le> 2 ^ 32"
  shows "isPowerOfTwo (client_shardCount cfg)
         \<and> unat cfg \<le> unat (client_shardCount cfg)
         \<and> unat (client_shardCount cfg) < 2 * unat cfg"
proof (cases "isPowerOfTwo cfg")
  case True
  from pos have "cfg \<noteq> 0"
    by auto
  then have "unat cfg \<noteq> 0"
    by (simp add: unat_eq_0)
  with True pos show ?thesis
    by (simp add: client_shardCount_def Let_def word_sle_eq word_sless_alt)
next
  case False
  from pos have "cfg \<noteq> 0"
    by auto
  moreover from False have "cfg \<noteq> 1"
    by (auto simp: isPowerOfTwo_def word_sless_alt)
  ultimately have "unat cfg \<noteq> unat (0 :: go_int)" "unat cfg \<noteq> unat (1 :: go_int)"
    unfolding word_unat_eq_iff [symmetric] by blast+
  then have "unat cfg \<noteq> 0" "unat cfg \<noteq> 1"
    by simp_all
  then have lo: "1 < unat cfg"
    by arith
  from nextPowerOfTwo_rounds_up [OF lo hi] obtain k
    where k: "k \<le> 32" "nextPowerOfTwo cfg = 2 ^ k" "unat cfg \<le> 2 ^ k" "2 ^ k < 2 * unat cfg"
    by blast
  from k(1) have k63: "k < 63"
    by simp
  from False pos have "client_shardCount cfg = 2 ^ k"
    by (simp add: client_shardCount_def Let_def word_sle_eq word_sless_alt k(2))
  with k(3,4) isPowerOfTwo_exp [OF k63] unat_exp [OF k63] show ?thesis
    by simp
qed

lemma GetShardIndex_in_range:
  assumes "shardCount \<noteq> 0"
  shows "unat (GetShardIndex shardCount userID) < unat shardCount"
proof -
  have "GetShardIndex shardCount userID \<le> shardCount - 1"
    unfolding GetShardIndex_def by (rule word_and_le1)
  then have "unat (GetShardIndex shardCount userID) \<le> unat (shardCount - 1)"
    by (simp add: word_le_nat_alt)
  also from assms have "unat (shardCount - 1) < unat shardCount"
    by (simp add: unat_minus_one unat_gt_0)
  finally show ?thesis .
qed

lemma client_shardCount_3_7: "client_shardCount 3 = 4" "client_shardCount 7 = 8"
  by (simp_all add: client_shardCount_def isPowerOfTwo_def nextPowerOfTwo_def Let_def
        word_sle_eq word_sless_alt)

subsection \<open>Configured counts above \<open>2^32\<close>\<close>

text \<open>
  Claim C9 says that the shard count in use is the configured one rounded up to the next
  power of two. \<^verbatim>\<open>nextPowerOfTwo\<close> smears the bits of \<open>n - 1\<close> over 1, 2, 4, 8 and
  16 places only, which covers 32 of the 64 bits of an \<^verbatim>\<open>int\<close>. For the configured
  count \<open>2^32 + 1\<close> the client's shard count is \<open>2^33 - 1\<close>, not a power of two, and the
  mask \<open>shardCount - 1\<close> has its lowest bit clear: the user \<^verbatim>\<open>"b"\<close>, whose hash is odd,
  is routed to the even shard below it, and no user is routed to an odd one. For
  \<open>2^63 - 1\<close> the final increment overflows and the shard count is negative.
\<close>

theorem client_shardCount_not_power_of_two:
  "client_shardCount 4294967297 = 8589934591
   \<and> \<not> isPowerOfTwo (client_shardCount 4294967297)
   \<and> fnv1a32 ''b'' = 3876335077
   \<and> GetShardIndex (client_shardCount 4294967297) ''b'' = 3876335076
   \<and> GetEventsTableName (client_shardCount 4294967297) ''b'' = ''session_events_3876335076''
   \<and> client_shardCount 9223372036854775807 = - 9223372036854775808
   \<and> client_shardCount 9223372036854775807 <s 0"
proof -
  have c: "client_shardCount 4294967297 = 8589934591"
    by (simp add: client_shardCount_def isPowerOfTwo_def nextPowerOfTwo_above_32_bits Let_def
          word_sle_eq word_sless_alt)
  have p: "\<not> isPowerOfTwo 8589934591"
    by (simp add: isPowerOfTwo_def)
  have i: "GetShardIndex 8589934591 ''b'' = 3876335076"
    by (simp add: GetShardIndex_def fnv1a32_b)
  have n: "GetEventsTableName 8589934591 ''b'' = ''session_events_3876335076''"
    by (simp add: GetEventsTableName_def i fmt_d_def word_sless_alt digit_chars)
  have o: "client_shardCount 9223372036854775807 = - 9223372036854775808"
    by (simp add: client_shardCount_def isPowerOfTwo_def nextPowerOfTwo_overflow Let_def
          word_sle_eq word_sless_alt)
  have s: "(- 9223372036854775808 :: go_int) <s 0"
    by (simp add: word_sless_alt)
  from c p i n o s fnv1a32_b show ?thesis
    by simp
qed

end
